theory Spec2Isabelle
  imports Complex_Main "HOL-Library.DAList" "HOL-Library.Sublist"
begin

section \<open>JavaScript values used by the pages\<close>

text \<open>
  A JS \<^verbatim>\<open>number\<close> is modelled by a real: the finite values, with exact
  arithmetic. \<^verbatim>\<open>NaN\<close> only arises from \<^verbatim>\<open>Number(s)\<close> on a string and is
  modelled by \<open>None\<close>; rounding of doubles is outside the model.
\<close>

type_synonym number = real

text \<open>\<^verbatim>\<open>String.prototype.toLowerCase\<close>, on the ASCII letters.\<close>

definition toLowerChar :: "char \<Rightarrow> char" where
  "toLowerChar c =
     (let n = (of_char c :: nat) in if 65 \<le> n \<and> n \<le> 90 then char_of (n + 32) else c)"

definition toLowerCase :: "string \<Rightarrow> string" where
  "toLowerCase s = map toLowerChar s"

text \<open>\<^verbatim>\<open>s.includes(t)\<close>: \<open>t\<close> occurs in \<open>s\<close> as a contiguous run.\<close>

fun includes_str :: "string \<Rightarrow> string \<Rightarrow> bool" where
  "includes_str [] t = (t = [])"
| "includes_str (c # s) t = (prefix t (c # s) \<or> includes_str s t)"

text \<open>\<^verbatim>\<open>x || 0\<close> on an optional number: \<open>undefined\<close> and \<open>0\<close> both give \<open>0\<close>.\<close>

definition or0 :: "number option \<Rightarrow> number" where
  "or0 x = (case x of None \<Rightarrow> 0 | Some r \<Rightarrow> if r = 0 then 0 else r)"

text \<open>\<^verbatim>\<open>a >= Number(s)\<close>: a comparison with \<^verbatim>\<open>NaN\<close> is false.\<close>

definition ge_Number :: "number \<Rightarrow> number option \<Rightarrow> bool" where
  "ge_Number a n = (case n of None \<Rightarrow> False | Some t \<Rightarrow> a \<ge> t)"

section \<open>The workshops page (src/app/workshops/page.tsx)\<close>

subsection \<open>Data\<close>

text \<open>
  \<^verbatim>\<open>interface Workshop\<close>. The three optional fields are options; \<open>ratings\<close> is a
  JS object used as a map from user id to rating: an association list with distinct keys,
  in insertion order. The field \<^verbatim>\<open>id\<close> is named \<open>id_w\<close>.
\<close>

record workshop =
  id_w :: string
  title :: string
  description :: string
  price :: number
  category :: string
  imageUrl :: string
  date :: string
  vendorId :: string
  location :: string
  ageGroup :: string
  rating :: "number option"
  ratingCount :: "nat option"
  ratings :: "(string, number) alist option"

text \<open>
  The filter selectors of the page, the \<^verbatim>\<open>useState\<close> variables \<^verbatim>\<open>search\<close>,
  \<^verbatim>\<open>category\<close>, \<^verbatim>\<open>location\<close>, \<^verbatim>\<open>priceRange\<close>, \<^verbatim>\<open>ageGroup\<close>,
  \<^verbatim>\<open>ratingFilter\<close> and \<^verbatim>\<open>vendorFilter\<close>. Those that share a name with a field
  of \<open>workshop\<close> carry the prefix \<open>c_\<close>.
\<close>

record criteria =
  search :: string
  c_category :: string
  c_location :: string
  priceRange :: string
  c_ageGroup :: string
  ratingFilter :: string
  vendorFilter :: string

subsection \<open>The filter (lines 148-177)\<close>

text \<open>
  Lines 155-163: \<^verbatim>\<open>matchesPrice\<close> starts true and is overwritten by each of six
  independent \<^verbatim>\<open>if\<close> statements, in order.
\<close>

definition matchesPrice :: "string \<Rightarrow> number \<Rightarrow> bool" where
  "matchesPrice pr p =
     (let m = True;
          m = (if pr = ''0-2500'' then p \<le> 2500 else m);
          m = (if pr = ''2500-5000'' then p > 2500 \<and> p \<le> 5000 else m);
          m = (if pr = ''5000-10000'' then p > 5000 \<and> p \<le> 10000 else m);
          m = (if pr = ''10000-20000'' then p > 10000 \<and> p \<le> 20000 else m);
          m = (if pr = ''20000-30000'' then p > 20000 \<and> p \<le> 30000 else m);
          m = (if pr = ''30000+'' then p > 30000 else m)
      in m)"

text \<open>
  The callback of \<^verbatim>\<open>workshops.filter\<close>. \<open>toNumber\<close> is the built-in
  \<^verbatim>\<open>Number\<close> on strings, \<open>None\<close> for \<^verbatim>\<open>NaN\<close>; it is a parameter.
  \<^verbatim>\<open>Number(w.price)\<close> is the price itself, which is a number already.
\<close>

definition matches :: "(string \<Rightarrow> number option) \<Rightarrow> criteria \<Rightarrow> workshop \<Rightarrow> bool" where
  "matches toNumber c w =
     (let matchesSearch = includes_str (toLowerCase (title w)) (toLowerCase (search c));
          matchesCategory = (c_category c = ''All'' \<or> category w = c_category c);
          matchesVendor = (vendorFilter c = ''All'' \<or> vendorId w = vendorFilter c);
          matchesLocation = (c_location c = ''All'' \<or> location w = c_location c);
          matchesAge = (c_ageGroup c = ''All'' \<or> ageGroup w = c_ageGroup c);
          matchesPrice_w = matchesPrice (priceRange c) (price w);
          matchesRating =
            (ratingFilter c = ''All'' \<or> ge_Number (or0 (rating w)) (toNumber (ratingFilter c)))
      in matchesSearch \<and> matchesCategory \<and> matchesVendor \<and> matchesLocation \<and> matchesAge
         \<and> matchesPrice_w \<and> matchesRating)"

definition filtered :: "(string \<Rightarrow> number option) \<Rightarrow> criteria \<Rightarrow> workshop list \<Rightarrow> workshop list" where
  "filtered toNumber c workshops = filter (matches toNumber c) workshops"

section \<open>The document store (firebase/firestore, as the code uses it)\<close>

text \<open>
  A stored document is a finite map from field names to values. The data passed to
  \<^verbatim>\<open>updateDoc\<close> and \<^verbatim>\<open>addDoc\<close> is a JS object: a list of fields, each a plain
  value or one of the sentinels \<^verbatim>\<open>arrayUnion(x)\<close>, \<^verbatim>\<open>arrayRemove(x)\<close>,
  \<^verbatim>\<open>serverTimestamp()\<close>.
\<close>

datatype js_file = File string

datatype fval =
    FStr string
  | FNum number
  | FBool bool
  | FNull
  | FArray "fval list"
  | FMap "(string \<times> fval) list"
  | FTimestamp
  | FFile js_file

datatype fupdate = SetTo fval | ArrayUnion fval | ArrayRemove fval | ServerTimestamp

type_synonym doc = "string \<rightharpoonup> fval"

type_synonym update_data = "(string \<times> fupdate) list"

datatype error = Unavailable | NotFound | UploadFailed

text \<open>
  \<^verbatim>\<open>arrayUnion\<close> adds the element unless the array already holds it; a field that is
  absent or not an array becomes the one-element array. \<^verbatim>\<open>arrayRemove\<close> removes every
  occurrence.
\<close>

fun arrayUnion :: "fval option \<Rightarrow> fval \<Rightarrow> fval" where
  "arrayUnion (Some (FArray xs)) x = FArray (if x \<in> set xs then xs else xs @ [x])"
| "arrayUnion _ x = FArray [x]"

fun arrayRemove :: "fval option \<Rightarrow> fval \<Rightarrow> fval" where
  "arrayRemove (Some (FArray xs)) x = FArray (removeAll x xs)"
| "arrayRemove _ x = FArray []"

fun apply_field :: "string \<times> fupdate \<Rightarrow> doc \<Rightarrow> doc" where
  "apply_field (k, SetTo v) d = d(k \<mapsto> v)"
| "apply_field (k, ArrayUnion x) d = d(k \<mapsto> arrayUnion (d k) x)"
| "apply_field (k, ArrayRemove x) d = d(k \<mapsto> arrayRemove (d k) x)"
| "apply_field (k, ServerTimestamp) d = d(k \<mapsto> FTimestamp)"

definition apply_update :: "update_data \<Rightarrow> doc \<Rightarrow> doc" where
  "apply_update upd d = fold apply_field upd d"

text \<open>
  \<^verbatim>\<open>updateDoc(doc(db, collection, id), data)\<close> merges the fields into the stored
  document and throws when the document does not exist or the backend cannot be reached
  (\<open>reachable\<close> is false); \<^verbatim>\<open>addDoc\<close> appends a new document to the collection.
\<close>

definition updateDoc ::
  "bool \<Rightarrow> (string \<rightharpoonup> doc) \<Rightarrow> string \<Rightarrow> update_data \<Rightarrow> error + (string \<rightharpoonup> doc)" where
  "updateDoc reachable col i upd =
     (if \<not> reachable then Inl Unavailable
      else case col i of
             None \<Rightarrow> Inl NotFound
           | Some d \<Rightarrow> Inr (col(i \<mapsto> apply_update upd d)))"

definition addDoc :: "bool \<Rightarrow> doc list \<Rightarrow> update_data \<Rightarrow> error + doc list" where
  "addDoc reachable col upd =
     (if \<not> reachable then Inl Unavailable else Inr (col @ [apply_update upd Map.empty]))"

record firestore =
  workshopsCol :: "string \<rightharpoonup> doc"
  usersCol :: "string \<rightharpoonup> doc"
  registrationsCol :: "doc list"

text \<open>
  \<^verbatim>\<open>uploadBytes\<close> followed by \<^verbatim>\<open>getDownloadURL\<close> is a parameter
  \<open>upload :: js_file \<Rightarrow> string option\<close>: the URL of the stored file, or \<open>None\<close> when
  either call throws.
\<close>

type_synonym storage = "js_file \<Rightarrow> string option"

section \<open>The workshops page: handlers\<close>

text \<open>
  What the handlers read and write: \<^verbatim>\<open>user\<close> (its \<^verbatim>\<open>uid\<close>) and
  \<^verbatim>\<open>userData\<close> from the auth context, the \<^verbatim>\<open>workshops\<close> state, the document
  store, the notices shown with \<^verbatim>\<open>alert\<close>, the lines written with
  \<^verbatim>\<open>console.error\<close> and the number of page reloads.
\<close>

record user_data =
  favorites :: "string list option"
  registeredWorkshops :: "string list option"

record page =
  user :: "string option"
  userData :: "user_data option"
  workshops :: "workshop list"
  db :: firestore
  alerts :: "string list"
  console :: "string list"
  reloads :: nat

subsection \<open>handleRate (lines 116-146)\<close>

text \<open>Lines 128-129: \<^verbatim>\<open>workshop.ratings || {}\<close>, then the assignment at \<^verbatim>\<open>user.uid\<close>.\<close>

definition currentRatings :: "workshop \<Rightarrow> string \<Rightarrow> number \<Rightarrow> (string, number) alist" where
  "currentRatings w uid r =
     DAList.update uid r (case ratings w of None \<Rightarrow> DAList.empty | Some m \<Rightarrow> m)"

definition Object_values :: "(string, number) alist \<Rightarrow> number list" where
  "Object_values m = map snd (DAList.impl_of m)"

text \<open>Line 132: \<^verbatim>\<open>values.reduce((a, b) => a + b, 0) / values.length\<close>.\<close>

definition avg :: "number list \<Rightarrow> number" where
  "avg vs = foldl (\<lambda>a b. a + b) 0 vs / real (length vs)"

text \<open>
  Line 141: \<^verbatim>\<open>{ ...w, ratings: currentRatings, rating: avg, ratingCount: values.length }\<close>.
\<close>

definition rated :: "workshop \<Rightarrow> (string, number) alist \<Rightarrow> workshop" where
  "rated w cr =
     (let vs = Object_values cr
      in w\<lparr>ratings := Some cr, rating := Some (avg vs), ratingCount := Some (length vs)\<rparr>)"

text \<open>Lines 128-141 on the record found: the record with the user's rating submitted.\<close>

definition submitRating :: "workshop \<Rightarrow> string \<Rightarrow> number \<Rightarrow> workshop" where
  "submitRating w uid r = rated w (currentRatings w uid r)"

text \<open>Lines 134-138: the fields sent to the store.\<close>

definition rating_fields :: "(string, number) alist \<Rightarrow> update_data" where
  "rating_fields cr =
     (let vs = Object_values cr
      in [(''ratings'', SetTo (FMap (map (\<lambda>(k, v). (k, FNum v)) (DAList.impl_of cr)))),
          (''rating'', SetTo (FNum (avg vs))),
          (''ratingCount'', SetTo (FNum (real (length vs))))])"

text \<open>
  Line 129 assigns into the object that \<^verbatim>\<open>workshop.ratings\<close> refers to: when the
  record found has a \<^verbatim>\<open>ratings\<close> object, that record of the \<^verbatim>\<open>workshops\<close> state
  is changed in place, before the store is called. \<open>mutate_found\<close> changes the first
  element that satisfies \<open>P\<close>, the one \<^verbatim>\<open>find\<close> returns.
\<close>

fun mutate_found :: "('a \<Rightarrow> bool) \<Rightarrow> ('a \<Rightarrow> 'a) \<Rightarrow> 'a list \<Rightarrow> 'a list" where
  "mutate_found P f [] = []"
| "mutate_found P f (x # xs) = (if P x then f x # xs else x # mutate_found P f xs)"

definition assign_in_place :: "(string, number) alist \<Rightarrow> workshop \<Rightarrow> workshop" where
  "assign_in_place cr w = (case ratings w of None \<Rightarrow> w | Some _ \<Rightarrow> w\<lparr>ratings := Some cr\<rparr>)"

definition handleRate :: "bool \<Rightarrow> string \<Rightarrow> number \<Rightarrow> page \<Rightarrow> page" where
  "handleRate reachable workshopId r s =
     (case user s of
        None \<Rightarrow> s
      | Some uid \<Rightarrow>
          (case find (\<lambda>w. id_w w = workshopId) (workshops s) of
             None \<Rightarrow> s
           | Some w \<Rightarrow>
               (let cr = currentRatings w uid r
                in case updateDoc reachable (workshopsCol (db s)) workshopId (rating_fields cr) of
                     Inl e \<Rightarrow>
                       s\<lparr>workshops :=
                            mutate_found (\<lambda>w. id_w w = workshopId) (assign_in_place cr) (workshops s),
                          console := console s @ [''Error rating workshop:'']\<rparr>
                   | Inr col \<Rightarrow>
                       s\<lparr>db := (db s)\<lparr>workshopsCol := col\<rparr>,
                          workshops :=
                            map (\<lambda>w'. if id_w w' = workshopId then rated w' cr else w')
                              (workshops s)\<rparr>)))"

subsection \<open>toggleFavorite (lines 76-105)\<close>

definition toggleFavorite :: "bool \<Rightarrow> string \<Rightarrow> page \<Rightarrow> page" where
  "toggleFavorite reachable workshopId s =
     (case (user s, userData s) of
        (Some uid, Some ud) \<Rightarrow>
          (let isFav = (case favorites ud of None \<Rightarrow> False | Some fs \<Rightarrow> workshopId \<in> set fs);
               upd = [(''favorites'',
                       if isFav then ArrayRemove (FStr workshopId) else ArrayUnion (FStr workshopId))]
           in case updateDoc reachable (usersCol (db s)) uid upd of
                Inl e \<Rightarrow> s\<lparr>console := console s @ [''Error toggling favorite:'']\<rparr>
              | Inr col \<Rightarrow> s\<lparr>db := (db s)\<lparr>usersCol := col\<rparr>, reloads := reloads s + 1\<rparr>)
      | _ \<Rightarrow> s\<lparr>alerts := alerts s @ [''Please login to add to favorites.'']\<rparr>)"

subsection \<open>handleRegisterClick (lines 107-114)\<close>

text \<open>
  The click handler of the link to the registration page. The event carries
  \<^verbatim>\<open>defaultPrevented\<close>; the link navigates only when it stays false.
\<close>

record mouse_event =
  defaultPrevented :: bool

definition handleRegisterClick :: "mouse_event \<Rightarrow> string \<Rightarrow> page \<Rightarrow> mouse_event \<times> page" where
  "handleRegisterClick e workshopId s =
     (case user s of
        None \<Rightarrow>
          (e\<lparr>defaultPrevented := True\<rparr>,
           s\<lparr>alerts := alerts s @ [''Register or login to register for a workshop'']\<rparr>)
      | Some _ \<Rightarrow> (e, s))"

section \<open>Workshop actions (src/firebase/workshopActions.ts)\<close>

text \<open>
  \<^verbatim>\<open>Partial<WorkshopData>\<close>: every field may be missing, and \<^verbatim>\<open>image\<close>, when
  present, is a \<^verbatim>\<open>File\<close> or \<^verbatim>\<open>null\<close>. The fields carry the prefix \<open>d_\<close>.
\<close>

record partial_data =
  d_title :: "string option"
  d_description :: "string option"
  d_price :: "number option"
  d_date :: "string option"
  d_category :: "string option"
  d_image :: "js_file option option"
  d_whatsappLink :: "string option"

text \<open>The own properties of the object, as the spread \<^verbatim>\<open>{ ...data }\<close> copies them.\<close>

definition field_of :: "string \<Rightarrow> ('a \<Rightarrow> fval) \<Rightarrow> 'a option \<Rightarrow> update_data" where
  "field_of k f x = (case x of None \<Rightarrow> [] | Some v \<Rightarrow> [(k, SetTo (f v))])"

definition spread :: "partial_data \<Rightarrow> update_data" where
  "spread data =
     field_of ''title'' FStr (d_title data) @
     field_of ''description'' FStr (d_description data) @
     field_of ''price'' FNum (d_price data) @
     field_of ''date'' FStr (d_date data) @
     field_of ''category'' FStr (d_category data) @
     field_of ''image'' (\<lambda>i. case i of None \<Rightarrow> FNull | Some f \<Rightarrow> FFile f) (d_image data) @
     field_of ''whatsappLink'' FStr (d_whatsappLink data)"

text \<open>Lines 85-102 and 129-139: the upload, made only for a file that is there.\<close>

definition upload_if_present :: "storage \<Rightarrow> js_file option \<Rightarrow> error + string" where
  "upload_if_present upload f =
     (case f of
        None \<Rightarrow> Inr []
      | Some x \<Rightarrow> (case upload x of None \<Rightarrow> Inl UploadFailed | Some url \<Rightarrow> Inr url))"

subsection \<open>updateWorkshop (lines 83-115)\<close>

text \<open>
  Lines 104-111: the copy of the payload without \<^verbatim>\<open>image\<close>, with \<^verbatim>\<open>imageUrl\<close>
  set when an image was uploaded.
\<close>

definition cleanedData :: "partial_data \<Rightarrow> string \<Rightarrow> update_data" where
  "cleanedData data newImageUrl =
     (let cleaned = AList.delete ''image'' (spread data)
      in if newImageUrl \<noteq> [] then AList.update ''imageUrl'' (SetTo (FStr newImageUrl)) cleaned
         else cleaned)"

text \<open>
  The result is the error thrown, if any, and the store as the call leaves it: a failed
  upload is thrown again before the store is touched.
\<close>

definition updateWorkshop ::
  "storage \<Rightarrow> bool \<Rightarrow> firestore \<Rightarrow> string \<Rightarrow> partial_data \<Rightarrow> error option \<times> firestore" where
  "updateWorkshop upload reachable fs i data =
     (case upload_if_present upload (case d_image data of None \<Rightarrow> None | Some f \<Rightarrow> f) of
        Inl e \<Rightarrow> (Some e, fs)
      | Inr newImageUrl \<Rightarrow>
          (case updateDoc reachable (workshopsCol fs) i (cleanedData data newImageUrl) of
             Inl e \<Rightarrow> (Some e, fs)
           | Inr col \<Rightarrow> (None, fs\<lparr>workshopsCol := col\<rparr>)))"

subsection \<open>registerForWorkshop (lines 124-156)\<close>

text \<open>
  The store is written twice, so the result is the store as the call leaves it together
  with the error thrown, if any. \<open>addOk\<close> and \<open>updOk\<close> say whether the backend can be
  reached at \<^verbatim>\<open>addDoc\<close> and at \<^verbatim>\<open>updateDoc\<close>.
\<close>

definition registration_fields :: "string \<Rightarrow> string \<Rightarrow> string \<Rightarrow> update_data" where
  "registration_fields workshopId userId receiptUrl =
     [(''workshopId'', SetTo (FStr workshopId)),
      (''userId'', SetTo (FStr userId)),
      (''receiptUrl'', SetTo (FStr receiptUrl)),
      (''status'', SetTo (FStr ''pending'')),
      (''createdAt'', ServerTimestamp),
      (''consentAccepted'', SetTo (FBool True))]"

definition registerForWorkshop ::
  "storage \<Rightarrow> bool \<Rightarrow> bool \<Rightarrow> firestore \<Rightarrow> string \<Rightarrow> string \<Rightarrow> js_file option
     \<Rightarrow> error option \<times> firestore" where
  "registerForWorkshop upload addOk updOk fs workshopId userId receiptFile =
     (case upload_if_present upload receiptFile of
        Inl e \<Rightarrow> (Some e, fs)
      | Inr receiptUrl \<Rightarrow>
          (case addDoc addOk (registrationsCol fs)
                  (registration_fields workshopId userId receiptUrl) of
             Inl e \<Rightarrow> (Some e, fs)
           | Inr regs \<Rightarrow>
               (let fs1 = fs\<lparr>registrationsCol := regs\<rparr>
                in case updateDoc updOk (usersCol fs1) userId
                          [(''registeredWorkshops'', ArrayUnion (FStr workshopId))] of
                     Inl e \<Rightarrow> (Some e, fs1)
                   | Inr col \<Rightarrow> (None, fs1\<lparr>usersCol := col\<rparr>))))"

section \<open>The vendor dashboard (src/app/vendor/page.tsx)\<close>

text \<open>
  \<^verbatim>\<open>interface Workshop\<close> and \<^verbatim>\<open>interface Participant\<close> of the dashboard; the fields
  of the former carry the prefix \<open>v_\<close>. A participant's \<^verbatim>\<open>status\<close> is the string
  read from the registration document, or absent.
\<close>

record vendor_workshop =
  v_id :: string
  v_title :: string
  v_description :: string
  v_price :: number
  v_category :: string
  v_imageUrl :: string
  v_date :: string
  v_vendorId :: string
  v_whatsappLink :: "string option"

record participant =
  uid :: string
  displayName :: string
  email :: string
  phoneNumber :: "string option"
  receiptUrl :: "string option"
  status :: "string option"
  registrationId :: "string option"

text \<open>\<^verbatim>\<open>!p.status\<close>: the status is \<^verbatim>\<open>undefined\<close>, or the empty string.\<close>

definition absent :: "string option \<Rightarrow> bool" where
  "absent st = (case st of None \<Rightarrow> True | Some x \<Rightarrow> x = [])"

subsection \<open>totalRevenue (lines 223-226)\<close>

definition counted :: "participant \<Rightarrow> bool" where
  "counted p = (status p = Some ''approved'' \<or> absent (status p) \<or> status p = Some ''pending'')"

definition totalRevenue ::
  "vendor_workshop list \<Rightarrow> (string \<rightharpoonup> participant list) \<Rightarrow> number" where
  "totalRevenue workshops_v participantsMap =
     foldl (\<lambda>acc ws.
              let count = (case participantsMap (v_id ws) of
                             None \<Rightarrow> 0
                           | Some ps \<Rightarrow> length (filter counted ps))
              in acc + v_price ws * real count)
       0 workshops_v"

subsection \<open>handleEdit (lines 180-202)\<close>

text \<open>
  The form state that \<^verbatim>\<open>handleEdit\<close> sends, with the prefix \<open>f_\<close>, and its effect on
  the store and on the notices; \<^verbatim>\<open>selectedWorkshop\<close> is given by its id.
\<close>

record form =
  f_title :: string
  f_description :: string
  f_price :: number
  f_category :: string
  f_date :: string
  f_whatsappLink :: string
  f_image :: "js_file option"

definition edit_payload :: "form \<Rightarrow> partial_data" where
  "edit_payload f =
     \<lparr>d_title = Some (f_title f), d_description = Some (f_description f),
      d_price = Some (f_price f), d_date = Some (f_date f), d_category = Some (f_category f),
      d_image = Some (f_image f), d_whatsappLink = Some (f_whatsappLink f)\<rparr>"

definition handleEdit ::
  "storage \<Rightarrow> bool \<Rightarrow> form \<Rightarrow> string option \<Rightarrow> firestore \<Rightarrow> firestore \<times> string list" where
  "handleEdit upload reachable f selectedWorkshop fs =
     (case selectedWorkshop of
        None \<Rightarrow> (fs, [])
      | Some i \<Rightarrow>
          (case updateWorkshop upload reachable fs i (edit_payload f) of
             (Some e, fs') \<Rightarrow> (fs', [''Failed to update workshop.''])
           | (None, fs') \<Rightarrow> (fs', [])))"

section \<open>The filter as the specification words it\<close>

text \<open>
  The per-criterion predicates of the specification, written from its words and compared
  with \<open>matches\<close> below: the search text matches the title as a substring up to letter
  case, the empty text matching everything; a selector matches by equality, \<open>All\<close>
  matching everything; the price lies in the bucket selected; the rating, \<open>0\<close> when
  absent, is at least the numeric threshold.
\<close>

definition spec_search :: "string \<Rightarrow> string \<Rightarrow> bool" where
  "spec_search text ttl =
     (text = [] \<or> (\<exists>ps run ss. ttl = ps @ run @ ss \<and> toLowerCase run = toLowerCase text))"

definition spec_selector :: "string \<Rightarrow> string \<Rightarrow> bool" where
  "spec_selector sel v = (sel = ''All'' \<or> v = sel)"

text \<open>The six buckets: exclusive lower bound, inclusive upper bound, either may be missing.\<close>

definition spec_buckets :: "(string \<times> number option \<times> number option) list" where
  "spec_buckets =
     [(''0-2500'', None, Some 2500),
      (''2500-5000'', Some 2500, Some 5000),
      (''5000-10000'', Some 5000, Some 10000),
      (''10000-20000'', Some 10000, Some 20000),
      (''20000-30000'', Some 20000, Some 30000),
      (''30000+'', Some 30000, None)]"

definition above :: "number option \<Rightarrow> number \<Rightarrow> bool" where
  "above lo p = (case lo of None \<Rightarrow> True | Some l \<Rightarrow> l < p)"

definition upto_bound :: "number option \<Rightarrow> number \<Rightarrow> bool" where
  "upto_bound hi p = (case hi of None \<Rightarrow> True | Some h \<Rightarrow> p \<le> h)"

definition spec_price :: "string \<Rightarrow> number \<Rightarrow> bool" where
  "spec_price sel p =
     (case map_of spec_buckets sel of
        None \<Rightarrow> True
      | Some (lo, hi) \<Rightarrow> above lo p \<and> upto_bound hi p)"

definition spec_rating :: "(string \<Rightarrow> number option) \<Rightarrow> string \<Rightarrow> number option \<Rightarrow> bool" where
  "spec_rating toNumber sel r =
     (sel = ''All'' \<or>
      (case toNumber sel of
         None \<Rightarrow> False
       | Some t \<Rightarrow> t \<le> (case r of None \<Rightarrow> 0 | Some x \<Rightarrow> x)))"

definition spec_matches :: "(string \<Rightarrow> number option) \<Rightarrow> criteria \<Rightarrow> workshop \<Rightarrow> bool" where
  "spec_matches toNumber c w =
     (spec_search (search c) (title w) \<and>
      spec_selector (c_category c) (category w) \<and>
      spec_selector (vendorFilter c) (vendorId w) \<and>
      spec_selector (c_location c) (location w) \<and>
      spec_selector (c_ageGroup c) (ageGroup w) \<and>
      spec_price (priceRange c) (price w) \<and>
      spec_rating toNumber (ratingFilter c) (rating w))"

section \<open>Sample data\<close>

text \<open>The records and selectors at which the theorems below are evaluated.\<close>

definition sample_ratings :: "(string, number) alist" where
  "sample_ratings = DAList.update ''u2'' 5 (DAList.update ''u1'' 4 DAList.empty)"

definition pottery :: workshop where
  "pottery =
     \<lparr>id_w = ''w1'', title = ''Pottery Basics'', description = ''Clay'', price = 2500,
      category = ''Art'', imageUrl = ''p.png'', date = ''2025-01-10'', vendorId = ''v1'',
      location = ''Colombo'', ageGroup = ''Adults'', rating = Some 4.5, ratingCount = Some 2,
      ratings = Some sample_ratings\<rparr>"

definition robotics :: workshop where
  "robotics =
     \<lparr>id_w = ''w2'', title = ''Robotics Lab'', description = ''Kits'', price = 2501,
      category = ''Technology'', imageUrl = ''r.png'', date = ''2025-02-01'', vendorId = ''v2'',
      location = ''Kandy'', ageGroup = ''Kids'', rating = None, ratingCount = None,
      ratings = None\<rparr>"

definition no_criteria :: criteria where
  "no_criteria =
     \<lparr>search = [], c_category = ''All'', c_location = ''All'', priceRange = ''All'',
      c_ageGroup = ''All'', ratingFilter = ''All'', vendorFilter = ''All''\<rparr>"

text \<open>\<^verbatim>\<open>Number\<close> on the values of the rating selector of the page.\<close>

definition Number_star :: "string \<Rightarrow> number option" where
  "Number_star s =
     (if s = ''1'' then Some 1 else if s = ''2'' then Some 2 else if s = ''3'' then Some 3
      else if s = ''4'' then Some 4 else if s = ''5'' then Some 5 else None)"

section \<open>The rating invariant as the specification words it\<close>

text \<open>
  The mean of the values of a finite map, and the invariant of a record with ratings:
  \<open>rating\<close> is the mean of the values of \<open>ratings\<close> and \<open>ratingCount\<close> is the number of
  its entries.
\<close>

definition mean_of_map :: "(string \<rightharpoonup> number) \<Rightarrow> number" where
  "mean_of_map m = (\<Sum>k\<in>dom m. the (m k)) / real (card (dom m))"

definition ratings_invariant :: "workshop \<Rightarrow> bool" where
  "ratings_invariant w =
     (case ratings w of
        None \<Rightarrow> False
      | Some m \<Rightarrow>
          rating w = Some (mean_of_map (DAList.lookup m)) \<and>
          ratingCount w = Some (card (dom (DAList.lookup m))))"

text \<open>A signed-in user \<open>u1\<close> on a page that shows the two sample workshops.\<close>

definition sample_store :: firestore where
  "sample_store =
     \<lparr>workshopsCol = [''w1'' \<mapsto> [''title'' \<mapsto> FStr ''Pottery Basics'']],
      usersCol = [''u1'' \<mapsto> Map.empty],
      registrationsCol = []\<rparr>"

definition sample_page :: page where
  "sample_page =
     \<lparr>user = Some ''u1'', userData = Some \<lparr>favorites = None, registeredWorkshops = Some [''w1'']\<rparr>,
      workshops = [robotics, pottery], db = sample_store, alerts = [], console = [],
      reloads = 0\<rparr>"

text \<open>The same page with nobody signed in.\<close>

definition signed_out_page :: page where
  "signed_out_page = sample_page\<lparr>user := None, userData := None\<rparr>"

text \<open>A workshop of the dashboard priced 1000 and a participant, for the revenue example.\<close>

definition clay_class :: vendor_workshop where
  "clay_class =
     \<lparr>v_id = ''w1'', v_title = ''Pottery Basics'', v_description = ''Clay'', v_price = 1000,
      v_category = ''Art'', v_imageUrl = ''p.png'', v_date = ''2025-01-10'',
      v_vendorId = ''v1'', v_whatsappLink = None\<rparr>"

definition anna :: participant where
  "anna =
     \<lparr>uid = ''u1'', displayName = ''Anna'', email = ''anna@example.org'', phoneNumber = None,
      receiptUrl = None, status = None, registrationId = None\<rparr>"

text \<open>
  The \<^verbatim>\<open>registeredWorkshops\<close> array of a user's document: its elements, none when
  the document or the field is missing or the field is not an array.
\<close>

definition registered :: "firestore \<Rightarrow> string \<Rightarrow> fval list" where
  "registered fs userId =
     (case usersCol fs userId of
        None \<Rightarrow> []
      | Some d \<Rightarrow> (case d ''registeredWorkshops'' of Some (FArray xs) \<Rightarrow> xs | _ \<Rightarrow> []))"

text \<open>An edit form without a new image, one with a new image, and a storage that accepts it.\<close>

definition sample_form :: form where
  "sample_form =
     \<lparr>f_title = ''Pottery Advanced'', f_description = ''Wheel'', f_price = 3000,
      f_category = ''Art'', f_date = ''2025-03-01'', f_whatsappLink = ''wa.me/1'',
      f_image = None\<rparr>"

definition sample_upload :: storage where
  "sample_upload f = (case f of File n \<Rightarrow> Some (''https://cdn/'' @ n))"

definition rated_store :: firestore where
  "rated_store =
     \<lparr>workshopsCol =
        [''w1'' \<mapsto> [''title'' \<mapsto> FStr ''Pottery Basics'',
                    ''imageUrl'' \<mapsto> FStr ''p.png'',
                    ''ratings'' \<mapsto> FMap [(''u1'', FNum 4), (''u2'', FNum 5)],
                    ''rating'' \<mapsto> FNum 4.5,
                    ''ratingCount'' \<mapsto> FNum 2]],
      usersCol = [''u1'' \<mapsto> Map.empty],
      registrationsCol = []\<rparr>"

text \<open>
  Two relations between the store before and after an edit: the field \<open>k\<close> of every
  workshop document is untouched, and no document holds a \<^verbatim>\<open>File\<close> that it did not
  hold before.
\<close>

definition kept :: "string \<Rightarrow> firestore \<Rightarrow> firestore \<Rightarrow> bool" where
  "kept k fs fs' =
     (\<forall>j. map_option (\<lambda>d. d k) (workshopsCol fs' j) = map_option (\<lambda>d. d k) (workshopsCol fs j))"

definition no_new_file :: "firestore \<Rightarrow> firestore \<Rightarrow> bool" where
  "no_new_file fs fs' =
     (\<forall>j d' k f. workshopsCol fs' j = Some d' \<and> d' k = Some (FFile f) \<longrightarrow>
        (\<exists>d. workshopsCol fs j = Some d \<and> d k = Some (FFile f)))"

text \<open>The sample store after user \<open>u1\<close> registered for \<open>w1\<close> once, and twice.\<close>

definition once_registered :: firestore where
  "once_registered =
     snd (registerForWorkshop sample_upload True True sample_store ''w1'' ''u1''
            (Some (File ''receipt1.png'')))"

definition twice_registered :: firestore where
  "twice_registered =
     snd (registerForWorkshop sample_upload True True once_registered ''w1'' ''u1''
            (Some (File ''receipt2.png'')))"

text \<open>
  The first sample workshop with a \<open>ratingCount\<close> below the number of its ratings, the
  sample page with a user \<open>u3\<close> who has not rated yet, and the first sample workshop as a
  failed write of a rating 5 by \<open>u3\<close> leaves it on that page.
\<close>

definition stale_pottery :: workshop where
  "stale_pottery = pottery\<lparr>ratingCount := Some 1\<rparr>"

definition u3_page :: page where
  "u3_page = sample_page\<lparr>user := Some ''u3''\<rparr>"

definition half_rated :: workshop where
  "half_rated = pottery\<lparr>ratings := Some (currentRatings pottery ''u3'' 5)\<rparr>"

section \<open>Properties of the filter\<close>

subsection \<open>Auxiliary facts\<close>

lemma includes_str_sublist: "includes_str s t \<longleftrightarrow> sublist t s"
  by (induction s) (auto simp: sublist_Cons_right)

lemma includes_str_Nil [simp]: "includes_str s []"
  by (simp add: includes_str_sublist)

lemma sublist_map_iff:
  "sublist (map f s) (map f t) \<longleftrightarrow> (\<exists>ps run ss. t = ps @ run @ ss \<and> map f run = map f s)"
proof
  assume "sublist (map f s) (map f t)"
  then obtain ps' ss' where "map f t = ps' @ map f s @ ss'"
    by (auto simp: sublist_def)
  then have "\<exists>ps rest. t = ps @ rest \<and> ps' = map f ps \<and> map f s @ ss' = map f rest"
    by (simp only: map_eq_append_conv)
  then obtain ps rest where t: "t = ps @ rest" and "map f s @ ss' = map f rest"
    by blast
  then have "\<exists>run ss. rest = run @ ss \<and> map f s = map f run \<and> ss' = map f ss"
    by (simp only: append_eq_map_conv)
  then obtain run ss where "rest = run @ ss" and "map f run = map f s"
    by auto
  with t show "\<exists>ps run ss. t = ps @ run @ ss \<and> map f run = map f s"
    by blast
next
  assume "\<exists>ps run ss. t = ps @ run @ ss \<and> map f run = map f s"
  then obtain ps run ss where "t = ps @ run @ ss" and "map f run = map f s"
    by blast
  then have "map f t = map f ps @ map f s @ map f ss"
    by simp
  then show "sublist (map f s) (map f t)"
    unfolding sublist_def by blast
qed

lemma search_spec: "includes_str (toLowerCase t) (toLowerCase s) = spec_search s t"
proof (cases "s = []")
  case True
  then show ?thesis
    by (simp add: spec_search_def toLowerCase_def)
next
  case False
  then show ?thesis
    by (simp add: spec_search_def includes_str_sublist toLowerCase_def sublist_map_iff)
qed

lemma matchesPrice_spec: "matchesPrice sel p = spec_price sel p"
  by (simp add: matchesPrice_def spec_price_def spec_buckets_def above_def upto_bound_def)

lemma rating_spec: "(sel = ''All'' \<or> ge_Number (or0 r) (N sel)) = spec_rating N sel r"
  by (simp add: spec_rating_def ge_Number_def or0_def split: option.splits)

lemma matches_spec: "matches N c w = spec_matches N c w"
  unfolding matches_def spec_matches_def Let_def search_spec rating_spec matchesPrice_spec
    spec_selector_def
  by (rule refl)

lemma lower_POT: "toLowerCase ''POT'' = ''pot''"
  by code_simp

lemma lower_pottery: "toLowerCase ''Pottery Basics'' = ''pottery basics''"
  by code_simp

lemma lower_robotics: "toLowerCase ''Robotics Lab'' = ''robotics lab''"
  by code_simp

subsection \<open>The filter computes the conjunction of the criteria\<close>

text \<open>
  Claim C2. For every list of workshop records and all criteria, the filtered list holds
  exactly the records that satisfy every per-criterion predicate of the specification:
  the search text is a substring of the title up to letter case, category, vendor,
  location and age group are equal to their selectors, the price lies in the bucket
  selected and the rating, taken as 0 when absent, is at least the numeric threshold,
  where a selector \<open>All\<close> and the empty search text hold of every record. The result
  keeps the order of the input: it is the input with the other records left out.
\<close>

theorem filtered_spec:
  "filtered toNumber c ws = filter (spec_matches toNumber c) ws \<and>
   subseq (filtered toNumber c ws) ws \<and>
   (\<forall>w. w \<in> set (filtered toNumber c ws) \<longleftrightarrow> w \<in> set ws \<and> spec_matches toNumber c w)"
proof -
  have eq: "matches toNumber c = spec_matches toNumber c"
    by (rule ext) (rule matches_spec)
  show ?thesis
    by (simp add: filtered_def eq)
qed

theorem filtered_spec_witness:
  "filter (spec_matches Number_star
             (no_criteria\<lparr>search := ''POT'', priceRange := ''0-2500'', ratingFilter := ''4''\<rparr>))
     [robotics, pottery] = [pottery]"
proof -
  let ?c = "no_criteria\<lparr>search := ''POT'', priceRange := ''0-2500'', ratingFilter := ''4''\<rparr>"
  have "filtered Number_star ?c [robotics, pottery] = [pottery]"
    by (simp add: filtered_def matches_def no_criteria_def robotics_def pottery_def
        lower_POT lower_pottery lower_robotics matchesPrice_def ge_Number_def or0_def
        Number_star_def)
  with filtered_spec [of Number_star ?c "[robotics, pottery]"] show ?thesis
    by simp
qed

subsection \<open>Vacuous criteria\<close>

text \<open>
  Claim C3. When every selector is \<open>All\<close> and the search text is empty, the filter
  returns its input, every record in its place.
\<close>

theorem filtered_vacuous:
  assumes "search c = []" and "c_category c = ''All''" and "vendorFilter c = ''All''"
    and "c_location c = ''All''" and "c_ageGroup c = ''All''" and "priceRange c = ''All''"
    and "ratingFilter c = ''All''"
  shows "filtered toNumber c ws = ws"
proof -
  have "matches toNumber c w" for w
    using assms by (simp add: matches_def toLowerCase_def matchesPrice_def)
  then show ?thesis
    by (simp add: filtered_def)
qed

theorem filtered_vacuous_witness:
  "search no_criteria = [] \<and> c_category no_criteria = ''All'' \<and>
   vendorFilter no_criteria = ''All'' \<and> c_location no_criteria = ''All'' \<and>
   c_ageGroup no_criteria = ''All'' \<and> priceRange no_criteria = ''All'' \<and>
   ratingFilter no_criteria = ''All'' \<and>
   filtered Number_star no_criteria [robotics, pottery] = [robotics, pottery]"
  using filtered_vacuous [of no_criteria Number_star "[robotics, pottery]"]
  by (simp add: no_criteria_def)

subsection \<open>Price buckets\<close>

text \<open>
  Claim C4. The price predicate has six buckets with the boundaries 2500, 5000, 10000,
  20000 and 30000. For every record, \<open>0-2500\<close> matches exactly when the price is at most
  2500, each of the four middle buckets when the price is above its lower boundary and at
  most its upper boundary, and \<open>30000+\<close> when the price is above 30000. So \<open>0-2500\<close>
  matches a price of 2500 and does not match 2501.
\<close>

theorem matchesPrice_buckets:
  "(matchesPrice ''0-2500'' (price w) \<longleftrightarrow> price w \<le> 2500) \<and>
   (matchesPrice ''2500-5000'' (price w) \<longleftrightarrow> 2500 < price w \<and> price w \<le> 5000) \<and>
   (matchesPrice ''5000-10000'' (price w) \<longleftrightarrow> 5000 < price w \<and> price w \<le> 10000) \<and>
   (matchesPrice ''10000-20000'' (price w) \<longleftrightarrow> 10000 < price w \<and> price w \<le> 20000) \<and>
   (matchesPrice ''20000-30000'' (price w) \<longleftrightarrow> 20000 < price w \<and> price w \<le> 30000) \<and>
   (matchesPrice ''30000+'' (price w) \<longleftrightarrow> 30000 < price w) \<and>
   matchesPrice ''0-2500'' 2500 \<and> \<not> matchesPrice ''0-2500'' 2501"
  by (simp add: matchesPrice_def)

theorem matchesPrice_buckets_witness:
  "matchesPrice ''0-2500'' (price pottery) \<and> \<not> matchesPrice ''0-2500'' (price robotics) \<and>
   matchesPrice ''2500-5000'' (price robotics) \<and> \<not> matchesPrice ''2500-5000'' (price pottery)"
  using matchesPrice_buckets [of pottery] matchesPrice_buckets [of robotics]
  by (simp add: pottery_def robotics_def)

subsection \<open>Unrecognised price selectors\<close>

text \<open>
  Claim C5. A price selector that is none of the six bucket names makes the price
  predicate true of every record, whatever its price.
\<close>

theorem matchesPrice_fail_open:
  assumes "pr \<notin> {''0-2500'', ''2500-5000'', ''5000-10000'', ''10000-20000'',
                  ''20000-30000'', ''30000+''}"
  shows "matchesPrice pr (price w)"
  using assms by (simp add: matchesPrice_def)

theorem matchesPrice_fail_open_witness:
  "''cheap'' \<notin> {''0-2500'', ''2500-5000'', ''5000-10000'', ''10000-20000'',
                 ''20000-30000'', ''30000+''} \<and>
   matchesPrice ''cheap'' (price robotics) \<and> matchesPrice ''cheap'' 1000000"
proof -
  have h: "''cheap'' \<notin> {''0-2500'', ''2500-5000'', ''5000-10000'', ''10000-20000'',
                          ''20000-30000'', ''30000+''}"
    by simp
  have "matchesPrice ''cheap'' (price (robotics\<lparr>price := 1000000\<rparr>))"
    by (rule matchesPrice_fail_open [OF h])
  with h matchesPrice_fail_open [OF h, of robotics] show ?thesis
    by simp
qed

section \<open>Properties of rating submission\<close>

subsection \<open>Auxiliary facts\<close>

lemma foldl_plus: "foldl (\<lambda>a b. a + b) a vs = a + sum_list (vs :: number list)"
  by (induction vs arbitrary: a) simp_all

lemma avg_eq: "avg vs = sum_list vs / real (length vs)"
  by (simp add: avg_def foldl_plus)

lemma sum_list_values:
  "distinct (map fst xs) \<Longrightarrow>
   sum_list (map snd xs) = (\<Sum>k\<in>set (map fst xs). the (map_of xs k))"
proof (induction xs)
  case Nil
  then show ?case by simp
next
  case (Cons x xs)
  obtain k v where x: "x = (k, v)" by (cases x)
  from Cons.prems x have k: "k \<notin> fst ` set xs" and d: "distinct (map fst xs)"
    by auto
  have "(\<Sum>j\<in>set (map fst xs). the (map_of (x # xs) j)) = (\<Sum>j\<in>set (map fst xs). the (map_of xs j))"
    using k x by (intro sum.cong) auto
  with Cons.IH [OF d] k x show ?case
    by simp
qed

lemma dom_lookup: "dom (DAList.lookup m) = fst ` set (DAList.impl_of m)"
  by (simp add: DAList.lookup.rep_eq dom_map_of_conv_image_fst)

lemma card_dom_lookup: "card (dom (DAList.lookup m)) = length (DAList.impl_of m)"
proof -
  have "card (set (map fst (DAList.impl_of m))) = length (map fst (DAList.impl_of m))"
    by (rule distinct_card) simp
  then show ?thesis
    by (simp add: dom_lookup)
qed

lemma length_Object_values: "length (Object_values m) = length (DAList.impl_of m)"
  by (simp add: Object_values_def)

lemma avg_values: "avg (Object_values m) = mean_of_map (DAList.lookup m)"
proof -
  have "sum_list (map snd (DAList.impl_of m)) = (\<Sum>k\<in>dom (DAList.lookup m). the (DAList.lookup m k))"
    using sum_list_values [of "DAList.impl_of m"]
    by (simp add: DAList.lookup.rep_eq dom_map_of_conv_image_fst)
  then show ?thesis
    by (simp add: avg_eq Object_values_def mean_of_map_def card_dom_lookup)
qed

lemma rated_invariant: "ratings_invariant (rated w cr)"
  by (simp add: ratings_invariant_def rated_def Let_def avg_values card_dom_lookup
      length_Object_values)

lemma ratings_submitRating: "ratings (submitRating w u r) = Some (currentRatings w u r)"
  by (simp add: submitRating_def rated_def Let_def)

lemma lookup_currentRatings: "DAList.lookup (currentRatings w u r) u = Some r"
  by (simp add: currentRatings_def)

lemma rated_rated: "rated (rated w a) b = rated w b"
  by (simp add: rated_def Let_def)

lemma currentRatings_twice:
  "currentRatings (submitRating w u v1) u v2 = currentRatings w u v2"
  by (simp add: currentRatings_def ratings_submitRating)

lemma submitRating_twice: "submitRating (submitRating w u v1) u v2 = submitRating w u v2"
  by (simp add: submitRating_def [of "submitRating w u v1"] currentRatings_twice)
     (simp add: submitRating_def rated_rated)

lemma length_update_present:
  "k \<in> fst ` set xs \<Longrightarrow> length (AList.update k v xs) = length xs"
  by (induction xs) auto

lemma ratingCount_submitRating:
  "ratingCount (submitRating w u r) = Some (length (DAList.impl_of (currentRatings w u r)))"
  by (simp add: submitRating_def rated_def Let_def Object_values_def)

lemma count_present:
  assumes "ratings w = Some m" and "u \<in> dom (DAList.lookup m)"
  shows "ratingCount (submitRating w u r) = Some (card (dom (DAList.lookup m)))"
  using assms
  by (simp add: ratingCount_submitRating currentRatings_def DAList.update.rep_eq
      length_update_present dom_lookup card_dom_lookup [symmetric])

lemma sample_impl: "DAList.impl_of sample_ratings = [(''u1'', 4), (''u2'', 5)]"
  by (simp add: sample_ratings_def DAList.update.rep_eq DAList.empty.rep_eq)

lemma example_ratings:
  "DAList.impl_of (currentRatings pottery ''u1'' 2) = [(''u1'', 2), (''u2'', 5)]"
  by (simp add: currentRatings_def pottery_def DAList.update.rep_eq sample_impl)

lemma example_submit:
  "ratings (submitRating pottery ''u1'' 2) = Some (DAList.update ''u2'' 5 (DAList.update ''u1'' 2 DAList.empty)) \<and>
   rating (submitRating pottery ''u1'' 2) = Some 3.5 \<and>
   ratingCount (submitRating pottery ''u1'' 2) = Some 2"
  by (simp add: submitRating_def rated_def Let_def Object_values_def avg_def example_ratings
      alist_eq_iff DAList.update.rep_eq DAList.empty.rep_eq)


lemma id_w_rated: "id_w (rated x cr) = id_w x"
  by (simp add: rated_def Let_def)

lemma find_map_preserved:
  "find P xs = Some x \<Longrightarrow> (\<And>y. P (g y) = P y) \<Longrightarrow> find P (map g xs) = Some (g x)"
  by (induction xs) (auto split: if_splits)

lemma updateDoc_ok:
  "col i = Some d \<Longrightarrow> updateDoc True col i upd = Inr (col(i \<mapsto> apply_update upd d))"
  by (simp add: updateDoc_def)

lemma apply_rating_fields:
  "apply_update (rating_fields cr) d =
     d(''ratings'' \<mapsto> FMap (map (\<lambda>(k, v). (k, FNum v)) (DAList.impl_of cr)),
       ''rating'' \<mapsto> FNum (mean_of_map (DAList.lookup cr)),
       ''ratingCount'' \<mapsto> FNum (real (card (dom (DAList.lookup cr)))))"
  by (simp add: apply_update_def rating_fields_def Let_def avg_values card_dom_lookup
      length_Object_values)

lemma handleRate_ok:
  assumes "user s = Some u" and "find (\<lambda>x. id_w x = i) (workshops s) = Some w"
    and "workshopsCol (db s) i = Some d"
  shows "handleRate True i r s =
     s\<lparr>db := (db s)\<lparr>workshopsCol :=
               (workshopsCol (db s))(i \<mapsto> apply_update (rating_fields (currentRatings w u r)) d)\<rparr>,
       workshops := map (\<lambda>x. if id_w x = i then rated x (currentRatings w u r) else x)
                      (workshops s)\<rparr>"
  using assms by (simp add: handleRate_def Let_def updateDoc_ok)

lemma handleRate_found:
  assumes "user s = Some u" and "find (\<lambda>x. id_w x = i) (workshops s) = Some w"
    and "workshopsCol (db s) i = Some d"
  shows "find (\<lambda>x. id_w x = i) (workshops (handleRate True i r s)) = Some (submitRating w u r)"
proof -
  let ?g = "\<lambda>x. if id_w x = i then rated x (currentRatings w u r) else x"
  have "id_w w = i"
    using assms(2) by (auto simp: find_Some_iff)
  moreover have "find (\<lambda>x. id_w x = i) (map ?g (workshops s)) = Some (?g w)"
    using assms(2) by (rule find_map_preserved) (simp add: id_w_rated)
  ultimately show ?thesis
    by (simp add: handleRate_ok [OF assms] submitRating_def)
qed

lemma handleRate_all:
  assumes "user s = Some u" and "find (\<lambda>x. id_w x = i) (workshops s) = Some w"
    and "workshopsCol (db s) i = Some d"
    and "x \<in> set (workshops (handleRate True i r s))" and "id_w x = i"
  shows "ratings x = Some (currentRatings w u r) \<and> ratings_invariant x"
proof -
  from assms(4) obtain y where "y \<in> set (workshops s)"
    and x: "x = (if id_w y = i then rated y (currentRatings w u r) else y)"
    by (auto simp: handleRate_ok [OF assms(1,2,3)])
  with assms(5) have "x = rated y (currentRatings w u r)"
    by (auto split: if_splits)
  then show ?thesis
    by (simp add: rated_invariant) (simp add: rated_def Let_def)
qed

lemma handleRate_stored:
  assumes "user s = Some u" and "find (\<lambda>x. id_w x = i) (workshops s) = Some w"
    and "workshopsCol (db s) i = Some d"
  shows "workshopsCol (db (handleRate True i r s)) i =
     Some (apply_update (rating_fields (currentRatings w u r)) d)"
  by (simp add: handleRate_ok [OF assms])

lemma apply_rating_fields_twice:
  "apply_update (rating_fields b) (apply_update (rating_fields a) d) = apply_update (rating_fields b) d"
  by (simp add: apply_rating_fields)

lemma handleRate_twice:
  assumes "user s = Some u" and "find (\<lambda>x. id_w x = i) (workshops s) = Some w"
    and "workshopsCol (db s) i = Some d"
  shows "handleRate True i v2 (handleRate True i v1 s) = handleRate True i v2 s"
proof -
  let ?s1 = "handleRate True i v1 s"
  have u1: "user ?s1 = Some u"
    by (simp add: handleRate_ok [OF assms] assms(1))
  have f1: "find (\<lambda>x. id_w x = i) (workshops ?s1) = Some (submitRating w u v1)"
    by (rule handleRate_found [OF assms])
  have d1: "workshopsCol (db ?s1) i = Some (apply_update (rating_fields (currentRatings w u v1)) d)"
    by (rule handleRate_stored [OF assms])
  have m: "(\<lambda>x. if id_w x = i then rated x (currentRatings w u v2) else x) \<circ>
           (\<lambda>x. if id_w x = i then rated x (currentRatings w u v1) else x) =
           (\<lambda>x. if id_w x = i then rated x (currentRatings w u v2) else x)"
    by (rule ext) (simp add: id_w_rated rated_rated)
  show ?thesis
    unfolding handleRate_ok [OF u1 f1 d1] currentRatings_twice
    by (simp add: handleRate_ok [OF assms] m apply_rating_fields_twice)
qed

lemma filter_key_once:
  "distinct (map fst xs) \<Longrightarrow> u \<in> fst ` set xs \<Longrightarrow> length (filter (\<lambda>e. fst e = u) xs) = 1"
proof (induction xs)
  case Nil
  then show ?case by simp
next
  case (Cons x xs)
  show ?case
  proof (cases "fst x = u")
    case True
    with Cons.prems have "u \<notin> fst ` set xs"
      by simp
    then have "\<forall>e\<in>set xs. fst e \<noteq> u"
      by (auto simp: image_iff)
    then have "filter (\<lambda>e. fst e = u) xs = []"
      by (simp add: filter_empty_conv)
    with True show ?thesis by simp
  next
    case False
    with Cons show ?thesis by auto
  qed
qed

lemma present_once:
  "length (filter (\<lambda>e. fst e = u) (DAList.impl_of (currentRatings w u r))) = 1"
proof -
  let ?xs = "DAList.impl_of (currentRatings w u r)"
  have "u \<in> dom (DAList.lookup (currentRatings w u r))"
    by (simp add: lookup_currentRatings domI)
  then have "u \<in> fst ` set ?xs"
    by (simp add: dom_lookup)
  then show ?thesis
    by (intro filter_key_once) simp_all
qed

subsection \<open>A submitted rating recomputes the aggregate\<close>

text \<open>
  Claim C1. After a rating \<open>r\<close> is submitted by user \<open>u\<close> for a record, the updated
  record has \<open>ratings[u] = r\<close>, its \<open>rating\<close> is the arithmetic mean of all values of the
  updated \<open>ratings\<close> map and its \<open>ratingCount\<close> is the number of entries of that map,
  for every record, user and rating value. A record with ratings \<open>{u1: 4, u2: 5}\<close>
  rated 2 by \<open>u1\<close> gets ratings \<open>{u1: 2, u2: 5}\<close>, rating 3.5 and rating count 2.
  When \<open>handleRate\<close> runs for a signed-in user on a workshop of the page whose document
  exists in the store, the record it finds becomes that updated record, every record of
  the page with that id satisfies the invariant, and the stored document receives the
  same three fields.
\<close>

theorem handleRate_recomputes:
  "(\<exists>m. ratings (submitRating w u r) = Some m \<and> DAList.lookup m u = Some r \<and>
        rating (submitRating w u r) = Some (mean_of_map (DAList.lookup m)) \<and>
        ratingCount (submitRating w u r) = Some (card (dom (DAList.lookup m)))) \<and>
   (\<forall>m. ratings w = Some m \<and> DAList.impl_of m = [(''u1'', 4), (''u2'', 5)] \<longrightarrow>
        (\<exists>m'. ratings (submitRating w ''u1'' 2) = Some m' \<and>
              DAList.impl_of m' = [(''u1'', 2), (''u2'', 5)]) \<and>
        rating (submitRating w ''u1'' 2) = Some 3.5 \<and>
        ratingCount (submitRating w ''u1'' 2) = Some 2) \<and>
   (user s = Some u \<and> find (\<lambda>x. id_w x = i) (workshops s) = Some w \<and>
    workshopsCol (db s) i = Some d \<longrightarrow>
      find (\<lambda>x. id_w x = i) (workshops (handleRate True i r s)) = Some (submitRating w u r) \<and>
      (\<forall>x\<in>set (workshops (handleRate True i r s)).
          id_w x = i \<longrightarrow> ratings x = Some (currentRatings w u r) \<and> ratings_invariant x) \<and>
      workshopsCol (db (handleRate True i r s)) i =
        Some (d(''ratings'' \<mapsto>
                  FMap (map (\<lambda>(k, v). (k, FNum v)) (DAList.impl_of (currentRatings w u r))),
                ''rating'' \<mapsto> FNum (mean_of_map (DAList.lookup (currentRatings w u r))),
                ''ratingCount'' \<mapsto>
                  FNum (real (card (dom (DAList.lookup (currentRatings w u r))))))))"
proof (intro conjI allI impI)
  show "\<exists>m. ratings (submitRating w u r) = Some m \<and> DAList.lookup m u = Some r \<and>
        rating (submitRating w u r) = Some (mean_of_map (DAList.lookup m)) \<and>
        ratingCount (submitRating w u r) = Some (card (dom (DAList.lookup m)))"
    using rated_invariant [of w "currentRatings w u r"]
    by (simp add: ratings_submitRating lookup_currentRatings ratings_invariant_def
        submitRating_def [symmetric])
next
  fix m
  assume "ratings w = Some m \<and> DAList.impl_of m = [(''u1'', 4), (''u2'', 5)]"
  then have cr: "DAList.impl_of (currentRatings w ''u1'' 2) = [(''u1'', 2), (''u2'', 5)]"
    by (simp add: currentRatings_def DAList.update.rep_eq)
  show "\<exists>m'. ratings (submitRating w ''u1'' 2) = Some m' \<and>
              DAList.impl_of m' = [(''u1'', 2), (''u2'', 5)]"
    by (simp add: ratings_submitRating cr)
  show "rating (submitRating w ''u1'' 2) = Some 3.5"
    by (simp add: submitRating_def rated_def Let_def Object_values_def avg_def cr)
  show "ratingCount (submitRating w ''u1'' 2) = Some 2"
    by (simp add: ratingCount_submitRating cr)
next
  assume a: "user s = Some u \<and> find (\<lambda>x. id_w x = i) (workshops s) = Some w \<and>
    workshopsCol (db s) i = Some d"
  then have a1: "user s = Some u" and a2: "find (\<lambda>x. id_w x = i) (workshops s) = Some w"
    and a3: "workshopsCol (db s) i = Some d"
    by simp_all
  show "find (\<lambda>x. id_w x = i) (workshops (handleRate True i r s)) = Some (submitRating w u r)"
    by (rule handleRate_found [OF a1 a2 a3])
  show "workshopsCol (db (handleRate True i r s)) i =
        Some (d(''ratings'' \<mapsto>
                  FMap (map (\<lambda>(k, v). (k, FNum v)) (DAList.impl_of (currentRatings w u r))),
                ''rating'' \<mapsto> FNum (mean_of_map (DAList.lookup (currentRatings w u r))),
                ''ratingCount'' \<mapsto>
                  FNum (real (card (dom (DAList.lookup (currentRatings w u r)))))))"
    by (simp only: handleRate_stored [OF a1 a2 a3] apply_rating_fields)
  show "\<forall>x\<in>set (workshops (handleRate True i r s)).
          id_w x = i \<longrightarrow> ratings x = Some (currentRatings w u r) \<and> ratings_invariant x"
    using handleRate_all [OF a1 a2 a3] by blast
qed

theorem handleRate_recomputes_witness:
  "user sample_page = Some ''u1'' \<and>
   find (\<lambda>x. id_w x = ''w1'') (workshops sample_page) = Some pottery \<and>
   DAList.impl_of (the (ratings pottery)) = [(''u1'', 4), (''u2'', 5)] \<and>
   find (\<lambda>x. id_w x = ''w1'') (workshops (handleRate True ''w1'' 2 sample_page)) =
     Some (submitRating pottery ''u1'' 2) \<and>
   rating (submitRating pottery ''u1'' 2) = Some 3.5 \<and>
   ratingCount (submitRating pottery ''u1'' 2) = Some 2"
proof -
  have u: "user sample_page = Some ''u1''"
    by (simp add: sample_page_def)
  have f: "find (\<lambda>x. id_w x = ''w1'') (workshops sample_page) = Some pottery"
    by (simp add: sample_page_def robotics_def pottery_def)
  have d: "workshopsCol (db sample_page) ''w1'' = Some [''title'' \<mapsto> FStr ''Pottery Basics'']"
    by (simp add: sample_page_def sample_store_def)
  have m: "ratings pottery = Some sample_ratings"
    by (simp add: pottery_def)
  from u f d m sample_impl
    handleRate_recomputes [of pottery "''u1''" 2 sample_page "''w1''"
      "[''title'' \<mapsto> FStr ''Pottery Basics'']"]
  show ?thesis
    by simp
qed

subsection \<open>Submitting a rating is an upsert\<close>

text \<open>
  Claim C6, as stated: for every record, when the user already has a rating in the
  record's \<open>ratings\<close> map, submitting another rating by that user does not increase
  \<open>ratingCount\<close>. The count is recomputed from the map, so a record whose \<open>ratingCount\<close>
  is below the number of its ratings gets a higher one: with ratings \<open>{u1: 4, u2: 5}\<close>
  and a count of 1, a new rating by \<open>u1\<close> makes the count 2. The page produces such a
  record itself: a rating by \<open>u3\<close> whose write fails leaves \<open>u3\<close> in the map of the local
  record with the count still 2, and the next rating by \<open>u3\<close> makes it 3.
\<close>

theorem stale_count_increases:
  "ratings stale_pottery = Some sample_ratings \<and>
   ''u1'' \<in> dom (DAList.lookup sample_ratings) \<and>
   ratingCount stale_pottery = Some 1 \<and>
   ratingCount (submitRating stale_pottery ''u1'' 2) = Some 2 \<and>
   find (\<lambda>x. id_w x = ''w1'') (workshops (handleRate False ''w1'' 5 u3_page)) = Some half_rated \<and>
   ''u3'' \<in> dom (DAList.lookup (currentRatings pottery ''u3'' 5)) \<and>
   ratings half_rated = Some (currentRatings pottery ''u3'' 5) \<and>
   ratingCount half_rated = Some 2 \<and>
   map_option ratingCount
     (find (\<lambda>x. id_w x = ''w1'')
        (workshops (handleRate True ''w1'' 3 (handleRate False ''w1'' 5 u3_page)))) =
     Some (Some 3)"
proof -
  let ?s1 = "handleRate False ''w1'' 5 u3_page"
  have p: "id_w robotics \<noteq> ''w1''" "id_w pottery = ''w1''" "ratings pottery = Some sample_ratings"
    "ratingCount pottery = Some 2"
    by (simp_all add: robotics_def pottery_def)
  have s1: "?s1 = u3_page\<lparr>workshops := [robotics, half_rated],
                          console := [''Error rating workshop:'']\<rparr>"
    by (simp add: handleRate_def Let_def updateDoc_def u3_page_def sample_page_def p
        assign_in_place_def half_rated_def)
  have u: "user ?s1 = Some ''u3''"
    and d: "workshopsCol (db ?s1) ''w1'' = Some [''title'' \<mapsto> FStr ''Pottery Basics'']"
    unfolding s1 by (simp_all add: u3_page_def sample_page_def sample_store_def)
  have f: "find (\<lambda>x. id_w x = ''w1'') (workshops ?s1) = Some half_rated"
    unfolding s1 by (simp add: p half_rated_def)
  have c3: "DAList.impl_of (currentRatings pottery ''u3'' 5) = [(''u1'', 4), (''u2'', 5), (''u3'', 5)]"
    by (simp add: currentRatings_def p DAList.update.rep_eq sample_impl)
  have h: "ratings half_rated = Some (currentRatings pottery ''u3'' 5)"
    "ratingCount half_rated = Some 2"
    by (simp_all add: half_rated_def p)
  have c3': "DAList.impl_of (currentRatings half_rated ''u3'' 3) =
      [(''u1'', 4), (''u2'', 5), (''u3'', 3)]"
    by (simp add: currentRatings_def h p DAList.update.rep_eq sample_impl)
  have st: "ratings stale_pottery = Some sample_ratings" "ratingCount stale_pottery = Some 1"
    by (simp_all add: stale_pottery_def p)
  have c1: "DAList.impl_of (currentRatings stale_pottery ''u1'' 2) = [(''u1'', 2), (''u2'', 5)]"
    by (simp add: currentRatings_def st DAList.update.rep_eq sample_impl)
  have "ratingCount (submitRating stale_pottery ''u1'' 2) = Some 2"
    by (simp add: ratingCount_submitRating c1)
  moreover have "''u1'' \<in> dom (DAList.lookup sample_ratings)"
    by (simp add: dom_lookup sample_impl)
  moreover have "''u3'' \<in> dom (DAList.lookup (currentRatings pottery ''u3'' 5))"
    by (simp add: dom_lookup c3)
  moreover have "map_option ratingCount
     (find (\<lambda>x. id_w x = ''w1'') (workshops (handleRate True ''w1'' 3 ?s1))) = Some (Some 3)"
    by (simp add: handleRate_found [OF u f d] ratingCount_submitRating c3')
  ultimately show ?thesis
    using st f h by simp
qed

text \<open>
  Claim C6, amended. Submitting a rating is an upsert with last-write-wins semantics.
  For every record, user and rating values: the updated \<open>ratings\<close> map holds the value
  submitted at the user, exactly one entry of the user, and the entries of all other
  users as before; a second submission by the same user gives the record that the last
  submission alone gives, with the same \<open>ratings\<close> map, \<open>rating\<close> and \<open>ratingCount\<close>, and
  leaves \<open>ratingCount\<close> as the first submission made it. When the user already has a
  rating in the record's map, the \<open>ratingCount\<close> after the submission is the number of
  entries the map already had: it does not increase whenever the record's \<open>ratingCount\<close>
  was at least that number, as it is for a record that satisfies the invariant. On the
  page, for a signed-in user and a stored workshop, the first run of \<open>handleRate\<close> makes
  the record found the one with the first value submitted, the second run makes it the
  one with the second value submitted, with the user's entry overwritten and the count
  unchanged, the stored document then holds the fields of the second submission, and
  the state is the one the second run alone leaves.
\<close>

theorem submitRating_upsert:
  "(\<exists>m. ratings (submitRating w u v2) = Some m \<and> DAList.lookup m u = Some v2 \<and>
        length (filter (\<lambda>e. fst e = u) (DAList.impl_of m)) = 1 \<and>
        (\<forall>u'. u' \<noteq> u \<longrightarrow>
           DAList.lookup m u' =
             (case ratings w of None \<Rightarrow> None | Some m0 \<Rightarrow> DAList.lookup m0 u'))) \<and>
   submitRating (submitRating w u v1) u v2 = submitRating w u v2 \<and>
   ratingCount (submitRating (submitRating w u v1) u v2) = ratingCount (submitRating w u v1) \<and>
   (\<forall>m. ratings w = Some m \<and> u \<in> dom (DAList.lookup m) \<longrightarrow>
        ratingCount (submitRating w u v2) = Some (card (dom (DAList.lookup m))) \<and>
        (\<forall>n. ratingCount w = Some n \<and> card (dom (DAList.lookup m)) \<le> n \<longrightarrow>
           (\<exists>c. ratingCount (submitRating w u v2) = Some c \<and> c \<le> n))) \<and>
   (user s = Some u \<and> find (\<lambda>x. id_w x = i) (workshops s) = Some w \<and>
    workshopsCol (db s) i = Some d \<longrightarrow>
      find (\<lambda>x. id_w x = i) (workshops (handleRate True i v1 s)) = Some (submitRating w u v1) \<and>
      find (\<lambda>x. id_w x = i) (workshops (handleRate True i v2 (handleRate True i v1 s))) =
        Some (submitRating w u v2) \<and>
      (\<forall>x\<in>set (workshops (handleRate True i v2 (handleRate True i v1 s))).
          id_w x = i \<longrightarrow>
            (\<exists>m. ratings x = Some m \<and> DAList.lookup m u = Some v2 \<and>
                 length (filter (\<lambda>e. fst e = u) (DAList.impl_of m)) = 1) \<and>
            ratingCount x = ratingCount (submitRating w u v1)) \<and>
      workshopsCol (db (handleRate True i v2 (handleRate True i v1 s))) i =
        Some (d(''ratings'' \<mapsto>
                  FMap (map (\<lambda>(k, v). (k, FNum v)) (DAList.impl_of (currentRatings w u v2))),
                ''rating'' \<mapsto> FNum (mean_of_map (DAList.lookup (currentRatings w u v2))),
                ''ratingCount'' \<mapsto>
                  FNum (real (card (dom (DAList.lookup (currentRatings w u v2))))))) \<and>
      handleRate True i v2 (handleRate True i v1 s) = handleRate True i v2 s)"
proof -
  have twice: "submitRating (submitRating w u v1) u v2 = submitRating w u v2"
    by (rule submitRating_twice)
  have in1: "u \<in> dom (DAList.lookup (currentRatings w u v1))"
    by (simp add: lookup_currentRatings domI)
  have same_count:
    "ratingCount (submitRating (submitRating w u v1) u v2) = ratingCount (submitRating w u v1)"
    using count_present [of "submitRating w u v1" "currentRatings w u v1" u v2] in1
    by (simp add: ratings_submitRating ratingCount_submitRating [of w u v1] card_dom_lookup)
  have others: "DAList.lookup (currentRatings w u v2) u' =
      (case ratings w of None \<Rightarrow> None | Some m0 \<Rightarrow> DAList.lookup m0 u')" if "u' \<noteq> u" for u'
    using that by (simp add: currentRatings_def split: option.splits)
  have entry: "\<exists>m. ratings (submitRating w u v2) = Some m \<and> DAList.lookup m u = Some v2 \<and>
        length (filter (\<lambda>e. fst e = u) (DAList.impl_of m)) = 1 \<and>
        (\<forall>u'. u' \<noteq> u \<longrightarrow>
           DAList.lookup m u' =
             (case ratings w of None \<Rightarrow> None | Some m0 \<Rightarrow> DAList.lookup m0 u'))"
    using others by (simp add: ratings_submitRating lookup_currentRatings present_once)
  have count: "ratingCount (submitRating w u v2) = Some (card (dom (DAList.lookup m))) \<and>
        (\<forall>n. ratingCount w = Some n \<and> card (dom (DAList.lookup m)) \<le> n \<longrightarrow>
           (\<exists>c. ratingCount (submitRating w u v2) = Some c \<and> c \<le> n))"
    if "ratings w = Some m \<and> u \<in> dom (DAList.lookup m)" for m
    using that by (simp add: count_present)
  have page: "find (\<lambda>x. id_w x = i) (workshops (handleRate True i v1 s)) = Some (submitRating w u v1) \<and>
      find (\<lambda>x. id_w x = i) (workshops (handleRate True i v2 (handleRate True i v1 s))) =
        Some (submitRating w u v2) \<and>
      (\<forall>x\<in>set (workshops (handleRate True i v2 (handleRate True i v1 s))).
          id_w x = i \<longrightarrow>
            (\<exists>m. ratings x = Some m \<and> DAList.lookup m u = Some v2 \<and>
                 length (filter (\<lambda>e. fst e = u) (DAList.impl_of m)) = 1) \<and>
            ratingCount x = ratingCount (submitRating w u v1)) \<and>
      workshopsCol (db (handleRate True i v2 (handleRate True i v1 s))) i =
        Some (d(''ratings'' \<mapsto>
                  FMap (map (\<lambda>(k, v). (k, FNum v)) (DAList.impl_of (currentRatings w u v2))),
                ''rating'' \<mapsto> FNum (mean_of_map (DAList.lookup (currentRatings w u v2))),
                ''ratingCount'' \<mapsto>
                  FNum (real (card (dom (DAList.lookup (currentRatings w u v2))))))) \<and>
      handleRate True i v2 (handleRate True i v1 s) = handleRate True i v2 s"
    if a: "user s = Some u \<and> find (\<lambda>x. id_w x = i) (workshops s) = Some w \<and>
      workshopsCol (db s) i = Some d"
  proof -
    from a have a1: "user s = Some u" and a2: "find (\<lambda>x. id_w x = i) (workshops s) = Some w"
      and a3: "workshopsCol (db s) i = Some d"
      by simp_all
    have t: "handleRate True i v2 (handleRate True i v1 s) = handleRate True i v2 s"
      by (rule handleRate_twice [OF a1 a2 a3])
    have f1: "find (\<lambda>x. id_w x = i) (workshops (handleRate True i v1 s)) = Some (submitRating w u v1)"
      by (rule handleRate_found [OF a1 a2 a3])
    have f2: "find (\<lambda>x. id_w x = i) (workshops (handleRate True i v2 s)) = Some (submitRating w u v2)"
      by (rule handleRate_found [OF a1 a2 a3])
    have st: "workshopsCol (db (handleRate True i v2 s)) i =
        Some (d(''ratings'' \<mapsto>
                  FMap (map (\<lambda>(k, v). (k, FNum v)) (DAList.impl_of (currentRatings w u v2))),
                ''rating'' \<mapsto> FNum (mean_of_map (DAList.lookup (currentRatings w u v2))),
                ''ratingCount'' \<mapsto>
                  FNum (real (card (dom (DAList.lookup (currentRatings w u v2)))))))"
      by (simp only: handleRate_stored [OF a1 a2 a3] apply_rating_fields)
    have c12: "ratingCount (submitRating w u v2) = ratingCount (submitRating w u v1)"
      using same_count by (simp add: twice)
    have al: "(\<exists>m. ratings x = Some m \<and> DAList.lookup m u = Some v2 \<and>
                 length (filter (\<lambda>e. fst e = u) (DAList.impl_of m)) = 1) \<and>
            ratingCount x = ratingCount (submitRating w u v1)"
      if x: "x \<in> set (workshops (handleRate True i v2 s))" and i: "id_w x = i" for x
    proof -
      from handleRate_all [OF a1 a2 a3 x i]
      have r: "ratings x = Some (currentRatings w u v2)" and inv: "ratings_invariant x"
        by simp_all
      from inv r have "ratingCount x = Some (card (dom (DAList.lookup (currentRatings w u v2))))"
        by (simp add: ratings_invariant_def)
      then have "ratingCount x = ratingCount (submitRating w u v2)"
        by (simp add: ratingCount_submitRating card_dom_lookup)
      with r show ?thesis
        by (simp add: lookup_currentRatings present_once c12)
    qed
    show ?thesis
      unfolding t using f1 f2 st al by blast
  qed
  from entry twice same_count count page show ?thesis
    by blast
qed

theorem submitRating_upsert_witness:
  "ratings pottery = Some sample_ratings \<and> ''u1'' \<in> dom (DAList.lookup sample_ratings) \<and>
   ratingCount pottery = Some 2 \<and>
   ratingCount (submitRating pottery ''u1'' 2) = Some 2 \<and>
   submitRating (submitRating pottery ''u1'' 1) ''u1'' 2 = submitRating pottery ''u1'' 2 \<and>
   find (\<lambda>x. id_w x = ''w1'') (workshops (handleRate True ''w1'' 1 sample_page)) =
     Some (submitRating pottery ''u1'' 1) \<and>
   find (\<lambda>x. id_w x = ''w1'')
     (workshops (handleRate True ''w1'' 2 (handleRate True ''w1'' 1 sample_page))) =
     Some (submitRating pottery ''u1'' 2) \<and>
   DAList.impl_of (the (ratings (submitRating pottery ''u1'' 2))) = [(''u1'', 2), (''u2'', 5)] \<and>
   handleRate True ''w1'' 2 (handleRate True ''w1'' 1 sample_page) =
     handleRate True ''w1'' 2 sample_page"
proof -
  have u: "user sample_page = Some ''u1''"
    by (simp add: sample_page_def)
  have f: "find (\<lambda>x. id_w x = ''w1'') (workshops sample_page) = Some pottery"
    by (simp add: sample_page_def robotics_def pottery_def)
  have d: "workshopsCol (db sample_page) ''w1'' = Some [''title'' \<mapsto> FStr ''Pottery Basics'']"
    by (simp add: sample_page_def sample_store_def)
  have m: "ratings pottery = Some sample_ratings" and n: "ratingCount pottery = Some 2"
    by (simp_all add: pottery_def)
  have k: "''u1'' \<in> dom (DAList.lookup sample_ratings)"
    by (simp add: dom_lookup sample_impl)
  have c: "card (dom (DAList.lookup sample_ratings)) = 2"
    by (simp add: card_dom_lookup sample_impl)
  have e: "DAList.impl_of (the (ratings (submitRating pottery ''u1'' 2))) =
      [(''u1'', 2), (''u2'', 5)]"
    by (simp add: ratings_submitRating example_ratings)
  note t = submitRating_upsert [of pottery "''u1''" 2 1 sample_page "''w1''"
      "[''title'' \<mapsto> FStr ''Pottery Basics'']"]
  from t have tw: "submitRating (submitRating pottery ''u1'' 1) ''u1'' 2 =
      submitRating pottery ''u1'' 2"
    by blast
  from t m k have "ratingCount (submitRating pottery ''u1'' 2) =
      Some (card (dom (DAList.lookup sample_ratings)))"
    by blast
  with c have cn: "ratingCount (submitRating pottery ''u1'' 2) = Some 2"
    by simp
  from t u f d have pg:
    "find (\<lambda>x. id_w x = ''w1'') (workshops (handleRate True ''w1'' 1 sample_page)) =
       Some (submitRating pottery ''u1'' 1)"
    "find (\<lambda>x. id_w x = ''w1'')
       (workshops (handleRate True ''w1'' 2 (handleRate True ''w1'' 1 sample_page))) =
       Some (submitRating pottery ''u1'' 2)"
    "handleRate True ''w1'' 2 (handleRate True ''w1'' 1 sample_page) =
       handleRate True ''w1'' 2 sample_page"
    by blast+
  from m n k cn tw pg e show ?thesis
    by (intro conjI)
qed

section \<open>Properties of the revenue estimate\<close>

subsection \<open>Auxiliary facts\<close>

lemma foldl_revenue:
  "foldl (\<lambda>acc ws. acc + g ws) a xs = a + (\<Sum>ws\<leftarrow>xs. (g ws :: number))"
  by (induction xs arbitrary: a) simp_all

lemma counted_iff:
  "counted p \<longleftrightarrow> status p = Some ''approved'' \<or> status p = Some ''pending'' \<or> absent (status p)"
  by (auto simp: counted_def)

lemma count_case:
  "(case m of None \<Rightarrow> 0 | Some ps \<Rightarrow> length (filter P ps)) =
   length (filter P (case m of None \<Rightarrow> [] | Some ps \<Rightarrow> ps))"
  by (simp split: option.splits)

lemma totalRevenue_eq:
  "totalRevenue ws pm =
     (\<Sum>w\<leftarrow>ws. v_price w * real (length (filter counted
         (case pm (v_id w) of None \<Rightarrow> [] | Some ps \<Rightarrow> ps))))"
  by (simp add: totalRevenue_def Let_def foldl_revenue count_case)

lemma counted_not_rejected:
  assumes "status p \<in> {None, Some ''approved'', Some ''pending'', Some ''rejected''}"
  shows "counted p \<longleftrightarrow> status p \<noteq> Some ''rejected''"
  using assms by (auto simp: counted_def absent_def)

subsection \<open>Revenue counts every participant that is not rejected\<close>

text \<open>
  Claim C7. For every list of workshops and every map from workshop id to participants,
  the total revenue is the sum over the workshops of the price times the number of the
  workshop's participants whose status is \<open>approved\<close>, \<open>pending\<close> or absent (a workshop
  without an entry in the map has none; absent is what \<^verbatim>\<open>!p.status\<close> tests, an
  undefined or empty status). Where every status is absent, \<open>approved\<close>, \<open>pending\<close> or
  \<open>rejected\<close>, these are the participants that are not rejected. One workshop priced
  1000 with a pending, an approved and a rejected participant yields 2000.
\<close>

theorem totalRevenue_counts:
  "totalRevenue ws pm =
     (\<Sum>w\<leftarrow>ws. v_price w *
        real (length (filter
          (\<lambda>p. status p = Some ''approved'' \<or> status p = Some ''pending'' \<or> absent (status p))
          (case pm (v_id w) of None \<Rightarrow> [] | Some ps \<Rightarrow> ps)))) \<and>
   ((\<forall>w\<in>set ws. \<forall>ps. pm (v_id w) = Some ps \<longrightarrow>
        (\<forall>p\<in>set ps. status p \<in> {None, Some ''approved'', Some ''pending'', Some ''rejected''})) \<longrightarrow>
    totalRevenue ws pm =
      (\<Sum>w\<leftarrow>ws. v_price w *
         real (length (filter (\<lambda>p. status p \<noteq> Some ''rejected'')
           (case pm (v_id w) of None \<Rightarrow> [] | Some ps \<Rightarrow> ps))))) \<and>
   totalRevenue [w\<lparr>v_price := 1000\<rparr>]
     [v_id w \<mapsto> [p1\<lparr>status := Some ''pending''\<rparr>, p2\<lparr>status := Some ''approved''\<rparr>,
                  p3\<lparr>status := Some ''rejected''\<rparr>]] = 2000"
proof (intro conjI impI)
  have c: "counted = (\<lambda>p. status p = Some ''approved'' \<or> status p = Some ''pending'' \<or> absent (status p))"
    by (rule ext) (rule counted_iff)
  show "totalRevenue ws pm =
     (\<Sum>w\<leftarrow>ws. v_price w *
        real (length (filter
          (\<lambda>p. status p = Some ''approved'' \<or> status p = Some ''pending'' \<or> absent (status p))
          (case pm (v_id w) of None \<Rightarrow> [] | Some ps \<Rightarrow> ps))))"
    by (simp only: totalRevenue_eq c)
next
  assume a: "\<forall>w\<in>set ws. \<forall>ps. pm (v_id w) = Some ps \<longrightarrow>
        (\<forall>p\<in>set ps. status p \<in> {None, Some ''approved'', Some ''pending'', Some ''rejected''})"
  have "filter counted (case pm (v_id w) of None \<Rightarrow> [] | Some ps \<Rightarrow> ps) =
        filter (\<lambda>p. status p \<noteq> Some ''rejected'') (case pm (v_id w) of None \<Rightarrow> [] | Some ps \<Rightarrow> ps)"
    if "w \<in> set ws" for w
  proof (cases "pm (v_id w)")
    case None
    then show ?thesis by simp
  next
    case (Some ps)
    with a that have "\<forall>p\<in>set ps. status p \<in> {None, Some ''approved'', Some ''pending'', Some ''rejected''}"
      by blast
    then have "filter counted ps = filter (\<lambda>p. status p \<noteq> Some ''rejected'') ps"
      by (intro filter_cong refl) (simp add: counted_not_rejected)
    with Some show ?thesis by simp
  qed
  then show "totalRevenue ws pm =
      (\<Sum>w\<leftarrow>ws. v_price w *
         real (length (filter (\<lambda>p. status p \<noteq> Some ''rejected'')
           (case pm (v_id w) of None \<Rightarrow> [] | Some ps \<Rightarrow> ps))))"
    unfolding totalRevenue_eq
    by (intro arg_cong [where f = sum_list] map_cong refl) simp
next
  show "totalRevenue [w\<lparr>v_price := 1000\<rparr>]
     [v_id w \<mapsto> [p1\<lparr>status := Some ''pending''\<rparr>, p2\<lparr>status := Some ''approved''\<rparr>,
                  p3\<lparr>status := Some ''rejected''\<rparr>]] = 2000"
    by (simp add: totalRevenue_def counted_def absent_def)
qed

theorem totalRevenue_counts_witness:
  "totalRevenue [clay_class]
     [''w1'' \<mapsto> [anna\<lparr>status := Some ''pending''\<rparr>, anna\<lparr>status := Some ''approved''\<rparr>,
                 anna\<lparr>status := Some ''rejected''\<rparr>]] = 2000 \<and>
   totalRevenue [clay_class] [''w1'' \<mapsto> [anna, anna\<lparr>status := Some ''rejected''\<rparr>]] =
     1000 * real (length (filter (\<lambda>p. status p \<noteq> Some ''rejected'')
                     [anna, anna\<lparr>status := Some ''rejected''\<rparr>]))"
proof -
  have w: "clay_class\<lparr>v_price := 1000\<rparr> = clay_class" and i: "v_id clay_class = ''w1''"
    and p: "v_price clay_class = 1000" and st: "status anna = None"
    by (simp_all add: clay_class_def anna_def)
  have h: "\<forall>w\<in>set [clay_class]. \<forall>ps.
      [''w1'' \<mapsto> [anna, anna\<lparr>status := Some ''rejected''\<rparr>]] (v_id w) = Some ps \<longrightarrow>
      (\<forall>p\<in>set ps. status p \<in> {None, Some ''approved'', Some ''pending'', Some ''rejected''})"
    by (simp add: i st)
  from totalRevenue_counts [of "[clay_class]" "[''w1'' \<mapsto> [anna, anna\<lparr>status := Some ''rejected''\<rparr>]]"
      clay_class anna anna anna] h
  have "totalRevenue [clay_class] [''w1'' \<mapsto> [anna, anna\<lparr>status := Some ''rejected''\<rparr>]] =
      (\<Sum>w\<leftarrow>[clay_class]. v_price w *
         real (length (filter (\<lambda>p. status p \<noteq> Some ''rejected'')
           (case [''w1'' \<mapsto> [anna, anna\<lparr>status := Some ''rejected''\<rparr>]] (v_id w) of
              None \<Rightarrow> [] | Some ps \<Rightarrow> ps))))"
    and "totalRevenue [clay_class\<lparr>v_price := 1000\<rparr>]
     [v_id clay_class \<mapsto> [anna\<lparr>status := Some ''pending''\<rparr>, anna\<lparr>status := Some ''approved''\<rparr>,
                  anna\<lparr>status := Some ''rejected''\<rparr>]] = 2000"
    by blast+
  then show ?thesis
    by (simp add: w i p)
qed

section \<open>Actions without a signed-in user\<close>

text \<open>
  Claim C8, as stated: with no current user, rating, favoriting and registering are each
  aborted, write nothing, and show the user a blocking notice. Rating does not show one:
  on the sample page with nobody signed in, \<open>handleRate\<close> returns the state it was given,
  and the list of notices stays empty.
\<close>

theorem unauthenticated_rating_silent:
  "user signed_out_page = None \<and>
   handleRate True ''w1'' 5 signed_out_page = signed_out_page \<and>
   alerts (handleRate True ''w1'' 5 signed_out_page) = alerts signed_out_page \<and>
   alerts signed_out_page = []"
  by (simp add: handleRate_def signed_out_page_def sample_page_def)

text \<open>
  Claim C8, amended. With no current user each of the three actions is aborted and
  writes nothing to the store or to the page state. Favoriting and registering show a
  blocking notice, and registering cancels the navigation to the registration page;
  rating returns without a notice: the state is the one it was given.
\<close>

theorem unauthenticated_aborts:
  assumes "user s = None"
  shows "handleRate reachable i r s = s \<and>
         toggleFavorite reachable i s =
           s\<lparr>alerts := alerts s @ [''Please login to add to favorites.'']\<rparr> \<and>
         handleRegisterClick e i s =
           (e\<lparr>defaultPrevented := True\<rparr>,
            s\<lparr>alerts := alerts s @ [''Register or login to register for a workshop'']\<rparr>)"
  using assms by (simp add: handleRate_def toggleFavorite_def handleRegisterClick_def)

theorem unauthenticated_aborts_witness:
  "user signed_out_page = None \<and>
   handleRate True ''w1'' 5 signed_out_page = signed_out_page \<and>
   db (toggleFavorite True ''w1'' signed_out_page) = sample_store \<and>
   alerts (toggleFavorite True ''w1'' signed_out_page) = [''Please login to add to favorites.''] \<and>
   defaultPrevented (fst (handleRegisterClick \<lparr>defaultPrevented = False\<rparr> ''w1'' signed_out_page)) \<and>
   alerts (snd (handleRegisterClick \<lparr>defaultPrevented = False\<rparr> ''w1'' signed_out_page)) =
     [''Register or login to register for a workshop'']"
proof -
  have h: "user signed_out_page = None"
    by (simp add: signed_out_page_def)
  from unauthenticated_aborts [OF h, of True "''w1''" 5 "\<lparr>defaultPrevented = False\<rparr>"] h
  show ?thesis
    by (simp add: signed_out_page_def sample_page_def)
qed

section \<open>Properties of the workshop actions\<close>

subsection \<open>Auxiliary facts about updates\<close>

lemma apply_field_other: "k \<noteq> fst e \<Longrightarrow> apply_field e d k = d k"
  by (cases "(e, d)" rule: apply_field.cases) auto

lemma apply_update_frame: "k \<notin> fst ` set upd \<Longrightarrow> apply_update upd d k = d k"
  unfolding apply_update_def
  by (induction upd arbitrary: d) (auto simp: apply_field_other)

lemma apply_update_plain:
  assumes "\<forall>e\<in>set upd. \<exists>v. snd e = SetTo v \<and> P v" and "apply_update upd d k = Some x"
  shows "d k = Some x \<or> P x"
  using assms unfolding apply_update_def
proof (induction upd arbitrary: d)
  case Nil
  then show ?case by simp
next
  case (Cons e upd)
  from Cons.prems(1) obtain k' v where e: "e = (k', SetTo v)" and v: "P v"
    by (cases e) auto
  from Cons.prems have "apply_field e d k = Some x \<or> P x"
    by (intro Cons.IH) auto
  with e v show ?case
    by (auto split: if_splits)
qed

lemma apply_update_snoc: "apply_update (upd @ [e]) d = apply_field e (apply_update upd d)"
  by (simp add: apply_update_def)

lemma update_absent: "k \<notin> fst ` set xs \<Longrightarrow> AList.update k v xs = xs @ [(k, v)]"
  by (induction xs) auto

lemma set_delete: "set (AList.delete k xs) = {e \<in> set xs. fst e \<noteq> k}"
  by (auto simp: AList.delete_eq)

lemma in_field_of: "e \<in> set (field_of k f x) \<Longrightarrow> fst e = k \<and> (\<exists>v. snd e = SetTo (f v))"
  by (auto simp: field_of_def split: option.splits)

lemma in_spread:
  assumes "e \<in> set (spread data)"
  shows "fst e \<in> {''title'', ''description'', ''price'', ''date'', ''category'', ''image'',
                  ''whatsappLink''} \<and>
         (fst e \<noteq> ''image'' \<longrightarrow> (\<exists>v. snd e = SetTo v \<and> (\<forall>f. v \<noteq> FFile f)))"
proof -
  from assms consider
      "e \<in> set (field_of ''title'' FStr (d_title data))"
    | "e \<in> set (field_of ''description'' FStr (d_description data))"
    | "e \<in> set (field_of ''price'' FNum (d_price data))"
    | "e \<in> set (field_of ''date'' FStr (d_date data))"
    | "e \<in> set (field_of ''category'' FStr (d_category data))"
    | "e \<in> set (field_of ''image'' (\<lambda>i. case i of None \<Rightarrow> FNull | Some f \<Rightarrow> FFile f) (d_image data))"
    | "e \<in> set (field_of ''whatsappLink'' FStr (d_whatsappLink data))"
    by (auto simp: spread_def)
  then show ?thesis
    by cases (use in_field_of in fastforce)+
qed


lemma in_cleaned:
  assumes "e \<in> set (AList.delete ''image'' (spread data))"
  shows "fst e \<in> {''title'', ''description'', ''price'', ''date'', ''category'', ''whatsappLink''} \<and>
         (\<exists>v. snd e = SetTo v \<and> (\<forall>f. v \<noteq> FFile f))"
  using assms in_spread [of e data] by (auto simp: set_delete)

lemma imageUrl_not_cleaned: "''imageUrl'' \<notin> fst ` set (AList.delete ''image'' (spread data))"
  using in_cleaned [of _ data] by fastforce

lemma cleanedData_eq:
  "cleanedData data url =
     AList.delete ''image'' (spread data) @ (if url \<noteq> [] then [(''imageUrl'', SetTo (FStr url))] else [])"
  by (simp add: cleanedData_def Let_def update_absent [OF imageUrl_not_cleaned])

lemma in_cleanedData:
  assumes "e \<in> set (cleanedData data url)"
  shows "fst e \<in> {''title'', ''description'', ''price'', ''date'', ''category'', ''whatsappLink'',
                  ''imageUrl''} \<and>
         (\<exists>v. snd e = SetTo v \<and> (\<forall>f. v \<noteq> FFile f)) \<and>
         (fst e = ''imageUrl'' \<longrightarrow> url \<noteq> [])"
proof (cases "e \<in> set (AList.delete ''image'' (spread data))")
  case True
  with in_cleaned [of e data] show ?thesis
    by auto
next
  case False
  with assms have "e = (''imageUrl'', SetTo (FStr url)) \<and> url \<noteq> []"
    by (auto simp: cleanedData_eq split: if_splits)
  then show ?thesis
    by simp
qed

lemma cleanedData_frame:
  assumes "k \<notin> {''title'', ''description'', ''price'', ''date'', ''category'', ''whatsappLink''}"
    and "k = ''imageUrl'' \<longrightarrow> url = []"
  shows "apply_update (cleanedData data url) d k = d k"
proof (rule apply_update_frame)
  show "k \<notin> fst ` set (cleanedData data url)"
    using assms in_cleanedData [of _ data url] by fastforce
qed

lemma cleanedData_no_file:
  assumes "apply_update (cleanedData data url) d k = Some (FFile f)"
  shows "d k = Some (FFile f)"
proof -
  have "\<forall>e\<in>set (cleanedData data url). \<exists>v. snd e = SetTo v \<and> (\<forall>f. v \<noteq> FFile f)"
    using in_cleanedData [of _ data url] by blast
  from apply_update_plain [OF this assms] show ?thesis
    by blast
qed

lemma cleanedData_imageUrl:
  "url \<noteq> [] \<Longrightarrow> apply_update (cleanedData data url) d ''imageUrl'' = Some (FStr url)"
  by (simp add: cleanedData_eq apply_update_snoc)

lemma updateWorkshop_cases:
  assumes "updateWorkshop upload reachable fs i data = (err, fs')"
  shows "(err \<noteq> None \<and> fs' = fs) \<or>
         (err = None \<and>
          (\<exists>url d. upload_if_present upload (case d_image data of None \<Rightarrow> None | Some f \<Rightarrow> f) = Inr url \<and>
             workshopsCol fs i = Some d \<and>
             fs' = fs\<lparr>workshopsCol := (workshopsCol fs)(i \<mapsto> apply_update (cleanedData data url) d)\<rparr>))"
  using assms
  by (auto simp: updateWorkshop_def updateDoc_def split: sum.splits if_splits option.splits)

lemma updateWorkshop_kept:
  assumes "k \<notin> {''title'', ''description'', ''price'', ''date'', ''category'', ''whatsappLink'',
                 ''imageUrl''}"
  shows "kept k fs (snd (updateWorkshop upload reachable fs i data))"
proof -
  obtain err fs' where r: "updateWorkshop upload reachable fs i data = (err, fs')"
    by (cases "updateWorkshop upload reachable fs i data")
  from updateWorkshop_cases [OF r] show ?thesis
  proof
    assume "err \<noteq> None \<and> fs' = fs"
    with r show ?thesis by (simp add: kept_def)
  next
    assume "err = None \<and>
          (\<exists>url d. upload_if_present upload (case d_image data of None \<Rightarrow> None | Some f \<Rightarrow> f) = Inr url \<and>
             workshopsCol fs i = Some d \<and>
             fs' = fs\<lparr>workshopsCol := (workshopsCol fs)(i \<mapsto> apply_update (cleanedData data url) d)\<rparr>)"
    then obtain url d where d: "workshopsCol fs i = Some d"
      and fs': "fs' = fs\<lparr>workshopsCol := (workshopsCol fs)(i \<mapsto> apply_update (cleanedData data url) d)\<rparr>"
      by blast
    have "apply_update (cleanedData data url) d k = d k"
      using assms by (intro cleanedData_frame) auto
    with r d fs' show ?thesis
      by (simp add: kept_def)
  qed
qed

lemma updateWorkshop_kept_imageUrl:
  assumes "d_image data = None \<or> d_image data = Some None"
  shows "kept ''imageUrl'' fs (snd (updateWorkshop upload reachable fs i data))"
proof -
  obtain err fs' where r: "updateWorkshop upload reachable fs i data = (err, fs')"
    by (cases "updateWorkshop upload reachable fs i data")
  have u: "upload_if_present upload (case d_image data of None \<Rightarrow> None | Some f \<Rightarrow> f) = Inr []"
    using assms by (auto simp: upload_if_present_def)
  from updateWorkshop_cases [OF r] show ?thesis
  proof
    assume "err \<noteq> None \<and> fs' = fs"
    with r show ?thesis by (simp add: kept_def)
  next
    assume "err = None \<and>
          (\<exists>url d. upload_if_present upload (case d_image data of None \<Rightarrow> None | Some f \<Rightarrow> f) = Inr url \<and>
             workshopsCol fs i = Some d \<and>
             fs' = fs\<lparr>workshopsCol := (workshopsCol fs)(i \<mapsto> apply_update (cleanedData data url) d)\<rparr>)"
    with u obtain d where d: "workshopsCol fs i = Some d"
      and fs': "fs' = fs\<lparr>workshopsCol := (workshopsCol fs)(i \<mapsto> apply_update (cleanedData data []) d)\<rparr>"
      by auto
    have "apply_update (cleanedData data []) d ''imageUrl'' = d ''imageUrl''"
      by (intro cleanedData_frame) auto
    with r d fs' show ?thesis
      by (simp add: kept_def)
  qed
qed

lemma updateWorkshop_no_new_file:
  "no_new_file fs (snd (updateWorkshop upload reachable fs i data))"
proof -
  obtain err fs' where r: "updateWorkshop upload reachable fs i data = (err, fs')"
    by (cases "updateWorkshop upload reachable fs i data")
  from updateWorkshop_cases [OF r] show ?thesis
  proof
    assume "err \<noteq> None \<and> fs' = fs"
    with r show ?thesis by (simp add: no_new_file_def)
  next
    assume "err = None \<and>
          (\<exists>url d. upload_if_present upload (case d_image data of None \<Rightarrow> None | Some f \<Rightarrow> f) = Inr url \<and>
             workshopsCol fs i = Some d \<and>
             fs' = fs\<lparr>workshopsCol := (workshopsCol fs)(i \<mapsto> apply_update (cleanedData data url) d)\<rparr>)"
    then obtain url d where d: "workshopsCol fs i = Some d"
      and fs': "fs' = fs\<lparr>workshopsCol := (workshopsCol fs)(i \<mapsto> apply_update (cleanedData data url) d)\<rparr>"
      by blast
    with r show ?thesis
      by (auto simp: no_new_file_def dest: cleanedData_no_file split: if_splits)
  qed
qed

lemma updateWorkshop_new_imageUrl:
  assumes "d_image data = Some (Some f)" and "upload f = Some url" and "url \<noteq> []"
    and "workshopsCol fs i = Some d"
  shows "fst (updateWorkshop upload True fs i data) = None \<and>
         (\<exists>d'. workshopsCol (snd (updateWorkshop upload True fs i data)) i = Some d' \<and>
               d' ''imageUrl'' = Some (FStr url))"
  using assms
  by (simp add: updateWorkshop_def upload_if_present_def updateDoc_def cleanedData_imageUrl)

lemma handleEdit_store:
  "fst (handleEdit upload reachable f sel fs) =
     (case sel of None \<Rightarrow> fs | Some i \<Rightarrow> snd (updateWorkshop upload reachable fs i (edit_payload f)))"
  by (simp add: handleEdit_def split: option.splits prod.splits)

subsection \<open>A vendor edit leaves the ratings alone\<close>

text \<open>
  Claim C9. For every workshop id and every update payload, \<open>updateWorkshop\<close> leaves
  the stored \<open>ratings\<close> map and the derived \<open>rating\<close> and \<open>ratingCount\<close> of every
  workshop document as they were. It never writes the \<^verbatim>\<open>File\<close> of the payload: the
  field \<open>image\<close> is untouched and no document gains a \<^verbatim>\<open>File\<close> value. Without a new
  image \<open>imageUrl\<close> is untouched; with one, a successful edit stores the URL of the
  upload in \<open>imageUrl\<close>. The same holds of the store that \<open>handleEdit\<close> leaves.
\<close>

theorem updateWorkshop_keeps_ratings:
  "kept ''ratings'' fs (snd (updateWorkshop upload reachable fs i data)) \<and>
   kept ''rating'' fs (snd (updateWorkshop upload reachable fs i data)) \<and>
   kept ''ratingCount'' fs (snd (updateWorkshop upload reachable fs i data)) \<and>
   kept ''image'' fs (snd (updateWorkshop upload reachable fs i data)) \<and>
   no_new_file fs (snd (updateWorkshop upload reachable fs i data)) \<and>
   (d_image data = None \<or> d_image data = Some None \<longrightarrow>
      kept ''imageUrl'' fs (snd (updateWorkshop upload reachable fs i data))) \<and>
   (d_image data = Some (Some f) \<and> upload f = Some url \<and> url \<noteq> [] \<and>
    workshopsCol fs i = Some d \<longrightarrow>
      fst (updateWorkshop upload True fs i data) = None \<and>
      (\<exists>d'. workshopsCol (snd (updateWorkshop upload True fs i data)) i = Some d' \<and>
            d' ''imageUrl'' = Some (FStr url))) \<and>
   kept ''ratings'' fs (fst (handleEdit upload reachable fm sel fs)) \<and>
   kept ''rating'' fs (fst (handleEdit upload reachable fm sel fs)) \<and>
   kept ''ratingCount'' fs (fst (handleEdit upload reachable fm sel fs)) \<and>
   no_new_file fs (fst (handleEdit upload reachable fm sel fs))"
proof -
  have e: "kept k fs (fst (handleEdit upload reachable fm sel fs))"
    if "k \<notin> {''title'', ''description'', ''price'', ''date'', ''category'', ''whatsappLink'',
               ''imageUrl''}" for k
  proof (cases sel)
    case None
    then show ?thesis by (simp add: handleEdit_store kept_def)
  next
    case (Some j)
    with updateWorkshop_kept [OF that, of fs upload reachable j "edit_payload fm"]
    show ?thesis by (simp add: handleEdit_store)
  qed
  have n: "no_new_file fs (fst (handleEdit upload reachable fm sel fs))"
  proof (cases sel)
    case None
    then show ?thesis by (simp add: handleEdit_store no_new_file_def)
  next
    case (Some j)
    with updateWorkshop_no_new_file [of fs upload reachable j "edit_payload fm"]
    show ?thesis by (simp add: handleEdit_store)
  qed
  show ?thesis
  proof (intro conjI impI)
    show "kept ''ratings'' fs (snd (updateWorkshop upload reachable fs i data))"
      by (rule updateWorkshop_kept) simp
    show "kept ''rating'' fs (snd (updateWorkshop upload reachable fs i data))"
      by (rule updateWorkshop_kept) simp
    show "kept ''ratingCount'' fs (snd (updateWorkshop upload reachable fs i data))"
      by (rule updateWorkshop_kept) simp
    show "kept ''image'' fs (snd (updateWorkshop upload reachable fs i data))"
      by (rule updateWorkshop_kept) simp
    show "no_new_file fs (snd (updateWorkshop upload reachable fs i data))"
      by (rule updateWorkshop_no_new_file)
    show "kept ''imageUrl'' fs (snd (updateWorkshop upload reachable fs i data))"
      if "d_image data = None \<or> d_image data = Some None"
      using that by (rule updateWorkshop_kept_imageUrl)
    show "kept ''ratings'' fs (fst (handleEdit upload reachable fm sel fs))"
      by (rule e) simp
    show "kept ''rating'' fs (fst (handleEdit upload reachable fm sel fs))"
      by (rule e) simp
    show "kept ''ratingCount'' fs (fst (handleEdit upload reachable fm sel fs))"
      by (rule e) simp
    show "no_new_file fs (fst (handleEdit upload reachable fm sel fs))"
      by (rule n)
  next
    assume a: "d_image data = Some (Some f) \<and> upload f = Some url \<and> url \<noteq> [] \<and>
      workshopsCol fs i = Some d"
    then have a1: "d_image data = Some (Some f)" and a2: "upload f = Some url"
      and a3: "url \<noteq> []" and a4: "workshopsCol fs i = Some d"
      by simp_all
    have r: "fst (updateWorkshop upload True fs i data) = None \<and>
         (\<exists>d'. workshopsCol (snd (updateWorkshop upload True fs i data)) i = Some d' \<and>
               d' ''imageUrl'' = Some (FStr url))"
      by (rule updateWorkshop_new_imageUrl [where upload = upload and f = f, OF a1 a2 a3 a4])
    from r show "fst (updateWorkshop upload True fs i data) = None" ..
    from r show "\<exists>d'. workshopsCol (snd (updateWorkshop upload True fs i data)) i = Some d' \<and>
               d' ''imageUrl'' = Some (FStr url)" ..
  qed
qed

theorem updateWorkshop_keeps_ratings_witness:
  "map_option (\<lambda>d. (d ''title'', d ''ratings'', d ''rating'', d ''ratingCount'', d ''imageUrl''))
     (workshopsCol (fst (handleEdit sample_upload True sample_form (Some ''w1'') rated_store)) ''w1'') =
     Some (Some (FStr ''Pottery Advanced''), Some (FMap [(''u1'', FNum 4), (''u2'', FNum 5)]),
           Some (FNum 4.5), Some (FNum 2), Some (FStr ''p.png'')) \<and>
   kept ''ratings'' rated_store
     (snd (updateWorkshop sample_upload True rated_store ''w1'' (edit_payload sample_form))) \<and>
   kept ''imageUrl'' rated_store
     (snd (updateWorkshop sample_upload True rated_store ''w1'' (edit_payload sample_form))) \<and>
   (\<exists>d'. workshopsCol
           (snd (updateWorkshop sample_upload True rated_store ''w1''
                   (edit_payload (sample_form\<lparr>f_image := Some (File ''new.png'')\<rparr>)))) ''w1'' =
           Some d' \<and>
         d' ''imageUrl'' = Some (FStr ''https://cdn/new.png''))"
proof -
  have v: "map_option (\<lambda>d. (d ''title'', d ''ratings'', d ''rating'', d ''ratingCount'', d ''imageUrl''))
     (workshopsCol (fst (handleEdit sample_upload True sample_form (Some ''w1'') rated_store)) ''w1'') =
     Some (Some (FStr ''Pottery Advanced''), Some (FMap [(''u1'', FNum 4), (''u2'', FNum 5)]),
           Some (FNum 4.5), Some (FNum 2), Some (FStr ''p.png''))"
    by (simp add: handleEdit_def updateWorkshop_def upload_if_present_def edit_payload_def
        sample_form_def cleanedData_def spread_def field_of_def updateDoc_def rated_store_def
        apply_update_def)
  have n: "d_image (edit_payload sample_form) = Some None"
    by (simp add: edit_payload_def sample_form_def)
  have i: "d_image (edit_payload (sample_form\<lparr>f_image := Some (File ''new.png'')\<rparr>)) =
      Some (Some (File ''new.png''))"
    and u: "sample_upload (File ''new.png'') = Some ''https://cdn/new.png''"
    and d: "workshopsCol rated_store ''w1'' \<noteq> None"
    by (simp_all add: edit_payload_def sample_upload_def rated_store_def)
  from d obtain d0 where d0: "workshopsCol rated_store ''w1'' = Some d0"
    by blast
  from updateWorkshop_keeps_ratings [of rated_store sample_upload True "''w1''"
      "edit_payload sample_form"] n
  have k: "kept ''ratings'' rated_store
       (snd (updateWorkshop sample_upload True rated_store ''w1'' (edit_payload sample_form)))"
    and k': "kept ''imageUrl'' rated_store
       (snd (updateWorkshop sample_upload True rated_store ''w1'' (edit_payload sample_form)))"
    by simp_all
  from updateWorkshop_keeps_ratings [of rated_store sample_upload True "''w1''"
      "edit_payload (sample_form\<lparr>f_image := Some (File ''new.png'')\<rparr>)" "File ''new.png''"
      "''https://cdn/new.png''" d0] i u d0
  have "\<exists>d'. workshopsCol
           (snd (updateWorkshop sample_upload True rated_store ''w1''
                   (edit_payload (sample_form\<lparr>f_image := Some (File ''new.png'')\<rparr>)))) ''w1'' =
           Some d' \<and>
         d' ''imageUrl'' = Some (FStr ''https://cdn/new.png'')"
    by simp
  with v k k' show ?thesis
    by blast
qed

subsection \<open>Auxiliary facts about registration\<close>

lemma registration_doc:
  "apply_update (registration_fields w u url) Map.empty =
     [''workshopId'' \<mapsto> FStr w, ''userId'' \<mapsto> FStr u, ''receiptUrl'' \<mapsto> FStr url,
      ''status'' \<mapsto> FStr ''pending'', ''createdAt'' \<mapsto> FTimestamp,
      ''consentAccepted'' \<mapsto> FBool True]"
  by (simp add: apply_update_def registration_fields_def)

lemma registerForWorkshop_cases:
  assumes "registerForWorkshop upload addOk updOk fs w u file = (err, fs')"
  shows "(err \<noteq> None \<and> fs' = fs) \<or>
         (\<exists>url. err \<noteq> None \<and>
            fs' = fs\<lparr>registrationsCol :=
                      registrationsCol fs @ [apply_update (registration_fields w u url) Map.empty]\<rparr>) \<or>
         (\<exists>url ud. err = None \<and> usersCol fs u = Some ud \<and>
            fs' = fs\<lparr>registrationsCol :=
                      registrationsCol fs @ [apply_update (registration_fields w u url) Map.empty],
                    usersCol := (usersCol fs)(u \<mapsto>
                      ud(''registeredWorkshops'' \<mapsto>
                           arrayUnion (ud ''registeredWorkshops'') (FStr w)))\<rparr>)"
  using assms
  by (auto simp: registerForWorkshop_def addDoc_def updateDoc_def Let_def apply_update_def
      split: sum.splits if_splits option.splits)

lemma pending_doc:
  "d = apply_update (registration_fields w u url) Map.empty \<Longrightarrow>
   d ''status'' = Some (FStr ''pending'') \<and> d ''consentAccepted'' = Some (FBool True) \<and>
   d ''workshopId'' = Some (FStr w) \<and> d ''userId'' = Some (FStr u)"
  by (simp add: registration_doc)

lemma arrayUnion_elems:
  "\<exists>ys. arrayUnion old x = FArray ys \<and>
        set ys = insert x (set (case old of Some (FArray xs) \<Rightarrow> xs | _ \<Rightarrow> [])) \<and>
        count_list ys x = max 1 (count_list (case old of Some (FArray xs) \<Rightarrow> xs | _ \<Rightarrow> []) x)"
proof (cases "(old, x)" rule: arrayUnion.cases)
  case (1 xs y)
  then show ?thesis
    by (auto simp: max_def count_list_0_iff Suc_le_eq)
qed auto

lemma arrayUnion_idem:
  "arrayUnion (Some (arrayUnion old x)) x = arrayUnion old x"
  by (cases "(old, x)" rule: arrayUnion.cases) auto

lemma registered_after:
  assumes "usersCol fs u = Some ud"
  shows "registered (fs\<lparr>registrationsCol := regs,
            usersCol := (usersCol fs)(u \<mapsto> ud(''registeredWorkshops'' \<mapsto> arrayUnion (ud ''registeredWorkshops'') x))\<rparr>) u =
         (case arrayUnion (ud ''registeredWorkshops'') x of FArray ys \<Rightarrow> ys | _ \<Rightarrow> [])"
  by (simp add: registered_def split: fval.splits)

lemma register_success:
  assumes "registerForWorkshop upload addOk updOk fs w u file = (None, fs')"
  shows "set (registered fs' u) = insert (FStr w) (set (registered fs u)) \<and>
         count_list (registered fs' u) (FStr w) = max 1 (count_list (registered fs u) (FStr w)) \<and>
         (\<exists>d. registrationsCol fs' = registrationsCol fs @ [d] \<and>
              d ''status'' = Some (FStr ''pending'') \<and> d ''consentAccepted'' = Some (FBool True) \<and>
              d ''workshopId'' = Some (FStr w) \<and> d ''userId'' = Some (FStr u))"
proof -
  from registerForWorkshop_cases [OF assms]
  obtain url ud where ud: "usersCol fs u = Some ud"
    and fs': "fs' = fs\<lparr>registrationsCol :=
                      registrationsCol fs @ [apply_update (registration_fields w u url) Map.empty],
                    usersCol := (usersCol fs)(u \<mapsto>
                      ud(''registeredWorkshops'' \<mapsto>
                           arrayUnion (ud ''registeredWorkshops'') (FStr w)))\<rparr>"
    by auto
  from arrayUnion_elems [of "ud ''registeredWorkshops''" "FStr w"]
  obtain ys where ys: "arrayUnion (ud ''registeredWorkshops'') (FStr w) = FArray ys"
    and s: "set ys = insert (FStr w) (set (case ud ''registeredWorkshops'' of Some (FArray xs) \<Rightarrow> xs | _ \<Rightarrow> []))"
    and c: "count_list ys (FStr w) = max 1 (count_list (case ud ''registeredWorkshops'' of Some (FArray xs) \<Rightarrow> xs | _ \<Rightarrow> []) (FStr w))"
    by blast
  have old: "registered fs u = (case ud ''registeredWorkshops'' of Some (FArray xs) \<Rightarrow> xs | _ \<Rightarrow> [])"
    by (simp add: registered_def ud)
  have "registered fs' u =
      (case arrayUnion (ud ''registeredWorkshops'') (FStr w) of FArray ys \<Rightarrow> ys | _ \<Rightarrow> [])"
    unfolding fs' by (rule registered_after [OF ud])
  with ys have new: "registered fs' u = ys"
    by simp
  have regs: "registrationsCol fs' =
      registrationsCol fs @ [apply_update (registration_fields w u url) Map.empty]"
    by (simp add: fs')
  show ?thesis
    using s c pending_doc [OF refl, of w u url]
    by (simp only: old new regs) blast
qed

lemma register_twice:
  assumes "registerForWorkshop upload addOk updOk fs w u file = (None, fs1)"
    and "registerForWorkshop upload' addOk' updOk' fs1 w u file' = (None, fs2)"
  shows "usersCol fs2 = usersCol fs1"
proof -
  from registerForWorkshop_cases [OF assms(1)]
  obtain url ud where ud: "usersCol fs u = Some ud"
    and fs1: "fs1 = fs\<lparr>registrationsCol :=
                      registrationsCol fs @ [apply_update (registration_fields w u url) Map.empty],
                    usersCol := (usersCol fs)(u \<mapsto>
                      ud(''registeredWorkshops'' \<mapsto>
                           arrayUnion (ud ''registeredWorkshops'') (FStr w)))\<rparr>"
    by auto
  from registerForWorkshop_cases [OF assms(2)]
  obtain url' ud' where ud': "usersCol fs1 u = Some ud'"
    and fs2: "fs2 = fs1\<lparr>registrationsCol :=
                      registrationsCol fs1 @ [apply_update (registration_fields w u url') Map.empty],
                    usersCol := (usersCol fs1)(u \<mapsto>
                      ud'(''registeredWorkshops'' \<mapsto>
                           arrayUnion (ud' ''registeredWorkshops'') (FStr w)))\<rparr>"
    by auto
  from ud' fs1 have "ud' = ud(''registeredWorkshops'' \<mapsto> arrayUnion (ud ''registeredWorkshops'') (FStr w))"
    by simp
  then have "ud'(''registeredWorkshops'' \<mapsto> arrayUnion (ud' ''registeredWorkshops'') (FStr w)) = ud'"
    by (simp add: arrayUnion_idem)
  with ud' show ?thesis
    unfolding fs2 by (simp add: fun_upd_idem)
qed

subsection \<open>A registration starts pending and is recorded once\<close>

text \<open>
  Claim C10. Every call of \<open>registerForWorkshop\<close> either adds no registration document
  or adds one whose \<open>status\<close> is \<open>pending\<close> and whose \<open>consentAccepted\<close> is true. When the
  call succeeds, the document added also names the workshop and the user, and the
  workshop id is added to the user's \<open>registeredWorkshops\<close> by set union: the elements
  are the old ones and the id, and the id occurs once if it was missing and as often as
  before otherwise. A second successful registration for the same workshop leaves
  \<open>registeredWorkshops\<close> as the first one left it, so an id that occurred at most once
  before the two registrations occurs exactly once after them.
\<close>

theorem registerForWorkshop_pending:
  "(registrationsCol (snd (registerForWorkshop upload addOk updOk fs w u rf)) = registrationsCol fs \<or>
    (\<exists>d. registrationsCol (snd (registerForWorkshop upload addOk updOk fs w u rf)) =
            registrationsCol fs @ [d] \<and>
          d ''status'' = Some (FStr ''pending'') \<and> d ''consentAccepted'' = Some (FBool True))) \<and>
   (registerForWorkshop upload addOk updOk fs w u rf = (None, fs1) \<longrightarrow>
      (\<exists>d. registrationsCol fs1 = registrationsCol fs @ [d] \<and>
            d ''status'' = Some (FStr ''pending'') \<and> d ''consentAccepted'' = Some (FBool True) \<and>
            d ''workshopId'' = Some (FStr w) \<and> d ''userId'' = Some (FStr u)) \<and>
      set (registered fs1 u) = insert (FStr w) (set (registered fs u)) \<and>
      count_list (registered fs1 u) (FStr w) = max 1 (count_list (registered fs u) (FStr w))) \<and>
   (registerForWorkshop upload addOk updOk fs w u rf = (None, fs1) \<and>
    registerForWorkshop upload' addOk' updOk' fs1 w u rf' = (None, fs2) \<longrightarrow>
      registered fs2 u = registered fs1 u \<and>
      (count_list (registered fs u) (FStr w) \<le> 1 \<longrightarrow>
         count_list (registered fs2 u) (FStr w) = 1))"
proof (intro conjI impI)
  obtain err fs' where r: "registerForWorkshop upload addOk updOk fs w u rf = (err, fs')"
    by (cases "registerForWorkshop upload addOk updOk fs w u rf")
  from registerForWorkshop_cases [OF r]
  have "registrationsCol fs' = registrationsCol fs \<or>
    (\<exists>url. registrationsCol fs' =
       registrationsCol fs @ [apply_update (registration_fields w u url) Map.empty])"
    by auto
  then have "registrationsCol fs' = registrationsCol fs \<or>
    (\<exists>d. registrationsCol fs' = registrationsCol fs @ [d] \<and>
          d ''status'' = Some (FStr ''pending'') \<and> d ''consentAccepted'' = Some (FBool True))"
    using pending_doc [OF refl, of w u] by blast
  with r show "registrationsCol (snd (registerForWorkshop upload addOk updOk fs w u rf)) =
      registrationsCol fs \<or>
    (\<exists>d. registrationsCol (snd (registerForWorkshop upload addOk updOk fs w u rf)) =
            registrationsCol fs @ [d] \<and>
          d ''status'' = Some (FStr ''pending'') \<and> d ''consentAccepted'' = Some (FBool True))"
    by simp
next
  assume a: "registerForWorkshop upload addOk updOk fs w u rf = (None, fs1)"
  from register_success [OF a]
  show "\<exists>d. registrationsCol fs1 = registrationsCol fs @ [d] \<and>
            d ''status'' = Some (FStr ''pending'') \<and> d ''consentAccepted'' = Some (FBool True) \<and>
            d ''workshopId'' = Some (FStr w) \<and> d ''userId'' = Some (FStr u)"
    and "set (registered fs1 u) = insert (FStr w) (set (registered fs u))"
    and "count_list (registered fs1 u) (FStr w) = max 1 (count_list (registered fs u) (FStr w))"
    by blast+
next
  assume a: "registerForWorkshop upload addOk updOk fs w u rf = (None, fs1) \<and>
    registerForWorkshop upload' addOk' updOk' fs1 w u rf' = (None, fs2)"
  then have a1: "registerForWorkshop upload addOk updOk fs w u rf = (None, fs1)"
    and a2: "registerForWorkshop upload' addOk' updOk' fs1 w u rf' = (None, fs2)"
    by simp_all
  from register_twice [OF a1 a2] show same: "registered fs2 u = registered fs1 u"
    by (simp add: registered_def)
  show "count_list (registered fs2 u) (FStr w) = 1"
    if "count_list (registered fs u) (FStr w) \<le> 1"
    using register_success [OF a1] that by (simp add: same max_def)
qed

theorem registerForWorkshop_pending_witness:
  "registerForWorkshop sample_upload True True sample_store ''w1'' ''u1''
     (Some (File ''receipt1.png'')) = (None, once_registered) \<and>
   registerForWorkshop sample_upload True True once_registered ''w1'' ''u1''
     (Some (File ''receipt2.png'')) = (None, twice_registered) \<and>
   registered sample_store ''u1'' = [] \<and>
   set (registered once_registered ''u1'') = {FStr ''w1''} \<and>
   count_list (registered twice_registered ''u1'') (FStr ''w1'') = 1"
proof -
  have r1: "registerForWorkshop sample_upload True True sample_store ''w1'' ''u1''
      (Some (File ''receipt1.png'')) = (None, once_registered)"
    by (simp add: once_registered_def registerForWorkshop_def upload_if_present_def
        sample_upload_def addDoc_def updateDoc_def sample_store_def)
  have u1: "usersCol once_registered ''u1'' \<noteq> None"
    by (simp add: once_registered_def registerForWorkshop_def upload_if_present_def
        sample_upload_def addDoc_def updateDoc_def sample_store_def)
  have r2: "registerForWorkshop sample_upload True True once_registered ''w1'' ''u1''
      (Some (File ''receipt2.png'')) = (None, twice_registered)"
    using u1
    by (auto simp add: twice_registered_def registerForWorkshop_def upload_if_present_def
        sample_upload_def addDoc_def updateDoc_def)
  have e: "registered sample_store ''u1'' = []"
    by (simp add: registered_def sample_store_def)
  from registerForWorkshop_pending [of sample_upload True True sample_store "''w1''" "''u1''"
      "Some (File ''receipt1.png'')" once_registered sample_upload True True
      "Some (File ''receipt2.png'')" twice_registered] r1 r2 e
  show ?thesis
    by simp
qed

section \<open>A rating whose write fails\<close>

text \<open>
  When \<^verbatim>\<open>updateDoc\<close> throws, \<open>handleRate\<close> logs the error and leaves the store alone.
  The record found keeps the assignment that line 129 made in place when it has a
  \<^verbatim>\<open>ratings\<close> object, while its \<open>rating\<close> and \<open>ratingCount\<close> are the old ones: on the
  sample page the ratings become \<open>{u1: 2, u2: 5}\<close> and the rating stays 4.5.
\<close>

lemma handleRate_failed_write:
  assumes "user s = Some u" and "find (\<lambda>x. id_w x = i) (workshops s) = Some w"
  shows "handleRate False i r s =
     s\<lparr>workshops := mutate_found (\<lambda>x. id_w x = i) (assign_in_place (currentRatings w u r))
                       (workshops s),
       console := console s @ [''Error rating workshop:'']\<rparr>"
  using assms by (simp add: handleRate_def Let_def updateDoc_def)

lemma handleRate_failed_write_sample:
  "find (\<lambda>x. id_w x = ''w1'') (workshops (handleRate False ''w1'' 2 sample_page)) =
     Some (pottery\<lparr>ratings := Some (currentRatings pottery ''u1'' 2)\<rparr>) \<and>
   DAList.impl_of (currentRatings pottery ''u1'' 2) = [(''u1'', 2), (''u2'', 5)] \<and>
   rating (pottery\<lparr>ratings := Some (currentRatings pottery ''u1'' 2)\<rparr>) = Some 4.5 \<and>
   db (handleRate False ''w1'' 2 sample_page) = db sample_page"
proof -
  have u: "user sample_page = Some ''u1''"
    by (simp add: sample_page_def)
  have f: "find (\<lambda>x. id_w x = ''w1'') (workshops sample_page) = Some pottery"
    by (simp add: sample_page_def robotics_def pottery_def)
  have i: "id_w robotics \<noteq> ''w1''" "id_w pottery = ''w1''" "ratings pottery = Some sample_ratings"
    "rating pottery = Some 4.5"
    by (simp_all add: robotics_def pottery_def)
  show ?thesis
    unfolding handleRate_failed_write [OF u f]
    by (simp add: sample_page_def i assign_in_place_def example_ratings)
qed

end
